theory Spec2Isabelle
  imports Main
begin

section \<open>JavaScript values, results and exceptions\<close>

text \<open>
  The entry points are dynamically typed: the validator inspects the run-time type of
  every argument. \<open>jsval\<close> holds the values the validator can tell apart. A \<open>Set\<close> is
  the list of its elements in insertion order (a JavaScript \<open>Set\<close> iterates in that
  order and holds no element twice). A JavaScript number is a double; the model keeps the
  integers, on which \<open>depth + 1\<close> and \<open>depth > maxDepth\<close> are exact (below \<open>2^53\<close>), and
  leaves out \<open>NaN\<close>, the infinities and fractions.
\<close>

datatype jsval =
    JUndefined
  | JNull
  | JBoolean bool
  | JNumber int
  | JString string
  | JSet "jsval list"
  | JArray "jsval list"
  | JObject
  | JFunction

text \<open>\<open>constants/bases.js\<close>: every error object is \<open>{type: "error", message}\<close>.\<close>

record error =
  type :: string
  message :: string

definition typeError :: string where
  "typeError = ''error''"

text \<open>
  The two result shapes \<open>{success: true, ...}\<close> and \<open>{success: false, errors}\<close>; the
  payload of a success differs between the validator and the entry points.
\<close>

datatype 'p result = SuccessTrue 'p | SuccessFalse "error list"

text \<open>
  A call either returns a value or throws (for the asynchronous entry point: its promise
  is fulfilled with a value or rejected). What is thrown is a \<open>TypeError\<close> of the
  language, kept with its message, or any other value, kept as what a template literal
  \<open>`${e}`\<close> makes of it: a string (\<open>Inr\<close>), or, for a value without a conversion to a
  string (a \<open>Symbol\<close>, an object whose \<open>toString\<close> throws), what that conversion throws
  (\<open>Inl\<close>).
\<close>

datatype exception = TypeError string | Value "exception + string"

datatype 'r outcome = Return 'r | Throw exception

fun templateString :: "exception \<Rightarrow> exception + string" where
  "templateString (TypeError msg) = Inr (''TypeError: '' @ msg)"
| "templateString (Value conversion) = conversion"

section \<open>The syntax tree handed over by the source parser\<close>

text \<open>
  Only the properties the engine reads are kept. \<open>source\<close> is \<open>node.source.value\<close> when
  the node has a \<open>source\<close>; reading it on a node without one throws a \<open>TypeError\<close>.
  \<open>callee_name\<close> is \<open>expression.callee.name\<close>, absent when the callee is not an
  identifier. The \<open>value\<close> of a literal argument is any value a literal can have (a
  string, a number, a boolean, \<open>null\<close>); the \<open>source\<close> of an import declaration is a
  string literal.
\<close>

record argumentNode =
  argument_type :: string
  argument_value :: jsval

record expressionNode =
  expression_type :: string
  callee_name :: "string option"
  arguments :: "argumentNode list"
  expression_source :: "string option"

record astBodyNode =
  node_type :: string
  source :: "string option"
  expression :: "expressionNode option"

record program =
  body :: "astBodyNode list"

record sourceCode =
  ast :: "program option"

section \<open>The external collaborators\<close>

text \<open>
  \<open>process.cwd()\<close>, \<open>fs.existsSync\<close>, \<open>getSourceCodeFromFilePath\<close>,
  \<open>resolveImportingPath\<close> and \<open>path.dirname\<close>. The resolver belongs to the package
  \<open>resolve-importing-path\<close>: the engine hands it the specifier as the statement holds
  it, whatever its type, and the resolver returns a path, returns a falsy value (\<open>None\<close>)
  or throws.
\<close>

record env =
  processCwd :: string
  existsSync :: "string \<Rightarrow> bool"
  getSourceCodeFromFilePath :: "string \<Rightarrow> sourceCode option"
  resolveImportingPath :: "string \<Rightarrow> jsval \<Rightarrow> string \<Rightarrow> string option outcome"
  dirname :: "string \<Rightarrow> string"

section \<open>Options and settings\<close>

record options =
  cwd :: jsval
  visitedSet :: jsval
  depth :: jsval
  maxDepth :: jsval

text \<open>
  The default values of the destructured \<open>options\<close> parameter; a default applies where
  the property is \<open>undefined\<close>.
\<close>

definition noOptions :: options where
  "noOptions = \<lparr>cwd = JUndefined, visitedSet = JUndefined, depth = JUndefined, maxDepth = JUndefined\<rparr>"

definition defaultOptions :: "env \<Rightarrow> options \<Rightarrow> options" where
  "defaultOptions e opts =
     \<lparr>cwd = (if cwd opts = JUndefined then JString (processCwd e) else cwd opts),
      visitedSet = (if visitedSet opts = JUndefined then JSet [] else visitedSet opts),
      depth = (if depth opts = JUndefined then JNumber 0 else depth opts),
      maxDepth = (if maxDepth opts = JUndefined then JNumber 100 else maxDepth opts)\<rparr>"

text \<open>
  The settings of \<open>processImport\<close>, built from validated values. Their \<open>visitedSet\<close>
  property is a reference to the shared ledger object: the content of that object is
  passed from call to call beside the settings.
\<close>

record settings =
  currentDir :: string
  workingDir :: string
  currentDepth :: int
  depthLimit :: int

section \<open>utilities/helpers.js\<close>

definition makeSuccessFalseTypeError :: "string \<Rightarrow> 'p result" where
  "makeSuccessFalseTypeError msg = SuccessFalse [\<lparr>type = typeError, message = msg\<rparr>]"

definition makeIsSupposedToBe :: "string \<Rightarrow> string \<Rightarrow> string" where
  "makeIsSupposedToBe paramName paramKind = paramName @ '' is supposed to be '' @ paramKind @ ''.''"

text \<open>The decimal form of an integer, as a template literal prints a number.\<close>

fun natToString :: "nat \<Rightarrow> string" where
  "natToString n =
     (if n < 10 then [char_of (48 + n)]
      else natToString (n div 10) @ [char_of (48 + n mod 10)])"

definition numberToString :: "int \<Rightarrow> string" where
  "numberToString i = (if i < 0 then ''-'' @ natToString (nat (- i)) else natToString (nat i))"

text \<open>
  \<open>VisitedSetSchema.safeParse\<close> of \<open>constants/schemas.js\<close>: a set of strings; one
  issue for each element that is not a string.
\<close>

definition visitedSetIssues :: "jsval \<Rightarrow> string list" where
  "visitedSetIssues v =
     (case v of
        JSet xs \<Rightarrow>
          map (\<lambda>_. ''All values within visitedSet should be strings.'')
            (filter (\<lambda>x. case x of JString _ \<Rightarrow> False | _ \<Rightarrow> True) xs)
      | _ \<Rightarrow> [''visitedSet should be a Set.''])"

record validated =
  validFilePath :: string
  validCwd :: string
  validVisitedSet :: jsval
  validDepth :: int
  validMaxDepth :: int
  validSourceCode :: sourceCode

definition validateFilePathAndOptions :: "env \<Rightarrow> jsval \<Rightarrow> options \<Rightarrow> validated result" where
  "validateFilePathAndOptions e filePath opts =
     (case filePath of
        JString fp \<Rightarrow>
          (case cwd opts of
             JString wd \<Rightarrow>
               (case visitedSet opts of
                  JSet xs \<Rightarrow>
                    (case depth opts of
                       JNumber d \<Rightarrow>
                         (case maxDepth opts of
                            JNumber m \<Rightarrow>
                              (if visitedSetIssues (JSet xs) \<noteq> [] then
                                 SuccessFalse
                                   (\<lparr>type = typeError,
                                     message = ''ERROR. Config data could not pass validation from zod.''\<rparr>
                                    # map (\<lambda>msg. \<lparr>type = typeError, message = msg\<rparr>)
                                        (visitedSetIssues (JSet xs)))
                               else if d > m then
                                 makeSuccessFalseTypeError
                                   (''ERROR. Max depth '' @ numberToString m @ '' reached at '' @ fp @ ''.'')
                               else if \<not> existsSync e fp then
                                 makeSuccessFalseTypeError (''ERROR. File not found at '' @ fp @ ''.'')
                               else
                                 (case getSourceCodeFromFilePath e fp of
                                    None \<Rightarrow>
                                      makeSuccessFalseTypeError
                                        (''ERROR. Failed to parse AST for '' @ fp @ '' somehow.'')
                                  | Some sc \<Rightarrow>
                                      (case ast sc of
                                         None \<Rightarrow>
                                           makeSuccessFalseTypeError
                                             (''ERROR. Failed to parse AST for '' @ fp @ '' somehow.'')
                                       | Some _ \<Rightarrow>
                                           SuccessTrue
                                             \<lparr>validFilePath = fp, validCwd = wd,
                                              validVisitedSet = JSet xs, validDepth = d,
                                              validMaxDepth = m, validSourceCode = sc\<rparr>)))
                          | _ \<Rightarrow>
                              makeSuccessFalseTypeError
                                (''ERROR. '' @ makeIsSupposedToBe ''maxDepth'' ''a number''))
                     | _ \<Rightarrow>
                         makeSuccessFalseTypeError
                           (''ERROR. '' @ makeIsSupposedToBe ''depth'' ''a number''))
                | _ \<Rightarrow>
                    makeSuccessFalseTypeError
                      (''ERROR. '' @ makeIsSupposedToBe ''visitedSet'' ''a Set''))
           | _ \<Rightarrow>
               makeSuccessFalseTypeError (''ERROR. '' @ makeIsSupposedToBe ''cwd'' ''a string''))
      | _ \<Rightarrow>
          makeSuccessFalseTypeError (''ERROR. '' @ makeIsSupposedToBe ''filePath'' ''a string''))"

text \<open>
  \<open>validateCallbackConfig\<close>. A \<open>callbackConfig\<close> argument is either a value that is
  falsy, not of type \<open>object\<close>, or an array (\<open>NotAnObject\<close>), or an object, whose
  \<open>callback\<close> property is a function (\<open>Some f\<close>) or not. Its \<open>accumulator\<close> property
  is a reference to the caller's accumulator: the content of the accumulator is passed
  from call to call beside the configuration.
\<close>

datatype 'f callbackConfig =
    NotAnObject
  | CallbackConfig (callback: "'f option")

definition validateCallbackConfig :: "'f callbackConfig \<Rightarrow> 'f result" where
  "validateCallbackConfig callbackConfig =
     (case callbackConfig of
        NotAnObject \<Rightarrow>
          makeSuccessFalseTypeError
            ''ERROR. Invalid callbackConfig format. The callbackConfig should be an object.''
      | CallbackConfig None \<Rightarrow>
          makeSuccessFalseTypeError
            ''ERROR. Invalid callbackConfig.callback format. The callbackConfig.callback should be a function.''
      | CallbackConfig (Some f) \<Rightarrow> SuccessTrue f)"

text \<open>
  \<open>updateVisitedSet\<close> and \<open>visitedSetHasPreviousVisit\<close>: \<open>Set.add\<close> and \<open>Set.has\<close>.
  The engine calls them on a validated set only.
\<close>

definition updateVisitedSet :: "jsval \<Rightarrow> string \<Rightarrow> jsval" where
  "updateVisitedSet vs filePath =
     (case vs of
        JSet xs \<Rightarrow> JSet (if JString filePath \<in> set xs then xs else xs @ [JString filePath])
      | _ \<Rightarrow> vs)"

definition visitedSetHasPreviousVisit :: "jsval \<Rightarrow> string \<Rightarrow> bool" where
  "visitedSetHasPreviousVisit vs filePath =
     (case vs of JSet xs \<Rightarrow> JString filePath \<in> set xs | _ \<Rightarrow> False)"

definition makeProcessImportSettings :: "env \<Rightarrow> string \<Rightarrow> validated \<Rightarrow> settings" where
  "makeProcessImportSettings e filePath v =
     \<lparr>currentDir = dirname e filePath, workingDir = validCwd v,
      currentDepth = validDepth v, depthLimit = validMaxDepth v\<rparr>"

definition makeFindAllImportsOptions :: "settings \<Rightarrow> jsval \<Rightarrow> options" where
  "makeFindAllImportsOptions s vs =
     \<lparr>cwd = JString (workingDir s), visitedSet = vs,
      depth = JNumber (currentDepth s + 1), maxDepth = JNumber (depthLimit s)\<rparr>"

definition nodeIsImportDeclaration :: "astBodyNode \<Rightarrow> bool" where
  "nodeIsImportDeclaration node = (node_type node = ''ImportDeclaration'')"

definition nodeIsImportExpression :: "astBodyNode \<Rightarrow> bool" where
  "nodeIsImportExpression node = (node_type node = ''ImportExpression'')"

text \<open>
  \<open>nodeIsRequireCall\<close> reads \<open>node.expression.type\<close> once the node is an
  \<open>ExpressionStatement\<close>: on a node without \<open>expression\<close> that read throws.
\<close>

definition undefinedRead :: "string \<Rightarrow> exception" where
  "undefinedRead property = TypeError (''Cannot read properties of undefined (reading '' @ property @ '')'')"

definition nodeIsRequireCall :: "astBodyNode \<Rightarrow> bool outcome" where
  "nodeIsRequireCall node =
     (if node_type node \<noteq> ''ExpressionStatement'' then Return False
      else
        (case expression node of
           None \<Rightarrow> Throw (undefinedRead ''type'')
         | Some ex \<Rightarrow>
             Return
               (expression_type ex = ''CallExpression'' \<and>
                callee_name ex = Some ''require'' \<and>
                (case arguments ex of [] \<Rightarrow> False | a # _ \<Rightarrow> argument_type a = ''Literal''))))"

text \<open>\<open>node.expression.arguments[0].value\<close>, read once \<open>nodeIsRequireCall\<close> holds.\<close>

definition requireArgument :: "astBodyNode \<Rightarrow> jsval outcome" where
  "requireArgument node =
     (case expression node of
        None \<Rightarrow> Throw (undefinedRead ''arguments'')
      | Some ex \<Rightarrow>
          (case arguments ex of
             [] \<Rightarrow> Throw (undefinedRead ''value'')
           | a # _ \<Rightarrow> Return (argument_value a)))"

section \<open>library/index.js: findAllImports\<close>

text \<open>
  The three \<open>if\<close> statements of the loop body run one after the other on the same node.
\<close>

datatype stage = ImportDeclarationCheck | ImportExpressionCheck | RequireCallCheck

text \<open>
  Every function returns its outcome together with the content of the shared
  \<open>visitedSet\<close> object when it returns. Once validation has succeeded, the source goes
  on with its arguments \<open>filePath\<close>, \<open>cwd\<close>, \<open>visitedSet\<close>, \<open>depth\<close> and \<open>maxDepth\<close>; the
  model goes on with the fields of the validated record, which are these arguments at
  the types validation has checked (lemma \<open>validated_facts\<close> below).
\<close>

function findAllImports :: "env \<Rightarrow> jsval \<Rightarrow> options \<Rightarrow> jsval result outcome \<times> jsval"
  and processImport :: "env \<Rightarrow> jsval \<Rightarrow> settings \<Rightarrow> jsval \<Rightarrow> jsval result outcome \<times> jsval"
  and scanBody ::
    "env \<Rightarrow> astBodyNode list \<Rightarrow> stage \<Rightarrow> settings \<Rightarrow> jsval \<Rightarrow> jsval result outcome \<times> jsval"
where
  "findAllImports e filePath opts =
     (case validateFilePathAndOptions e filePath (defaultOptions e opts) of
        SuccessFalse errors \<Rightarrow> (Return (SuccessFalse errors), visitedSet (defaultOptions e opts))
      | SuccessTrue v \<Rightarrow>
          (if visitedSetHasPreviousVisit (validVisitedSet v) (validFilePath v) then
             (Return (SuccessTrue (validVisitedSet v)), validVisitedSet v)
           else
             (case ast (validSourceCode v) of
                None \<Rightarrow>
                  (Throw (undefinedRead ''body''),
                   updateVisitedSet (validVisitedSet v) (validFilePath v))
              | Some prog \<Rightarrow>
                  scanBody e (body prog) ImportDeclarationCheck
                    (makeProcessImportSettings e (validFilePath v) v)
                    (updateVisitedSet (validVisitedSet v) (validFilePath v)))))"
| "processImport e importPath s vs =
     (case resolveImportingPath e (currentDir s) importPath (workingDir s) of
        Throw ex \<Rightarrow> (Throw ex, vs)
      | Return None \<Rightarrow> (Return (SuccessTrue vs), vs)
      | Return (Some resolvedPath) \<Rightarrow>
          findAllImports e (JString resolvedPath) (makeFindAllImportsOptions s vs))"
| "scanBody e [] st s vs = (Return (SuccessTrue vs), vs)"
| "scanBody e (node # rest) ImportDeclarationCheck s vs =
     (if nodeIsImportDeclaration node then
        (case source node of
           None \<Rightarrow> (Throw (undefinedRead ''value''), vs)
         | Some importPath \<Rightarrow>
             (case processImport e (JString importPath) s vs of
                (Return (SuccessTrue _), vs') \<Rightarrow>
                  scanBody e (node # rest) ImportExpressionCheck s vs'
              | (Return (SuccessFalse errors), vs') \<Rightarrow> (Return (SuccessFalse errors), vs')
              | (Throw ex, vs') \<Rightarrow> (Throw ex, vs')))
      else scanBody e (node # rest) ImportExpressionCheck s vs)"
| "scanBody e (node # rest) ImportExpressionCheck s vs =
     (if nodeIsImportExpression node then
        (case source node of
           None \<Rightarrow> (Throw (undefinedRead ''value''), vs)
         | Some importPath \<Rightarrow>
             (case processImport e (JString importPath) s vs of
                (Return (SuccessTrue _), vs') \<Rightarrow>
                  scanBody e (node # rest) RequireCallCheck s vs'
              | (Return (SuccessFalse errors), vs') \<Rightarrow> (Return (SuccessFalse errors), vs')
              | (Throw ex, vs') \<Rightarrow> (Throw ex, vs')))
      else scanBody e (node # rest) RequireCallCheck s vs)"
| "scanBody e (node # rest) RequireCallCheck s vs =
     (case nodeIsRequireCall node of
        Throw ex \<Rightarrow> (Throw ex, vs)
      | Return False \<Rightarrow> scanBody e rest ImportDeclarationCheck s vs
      | Return True \<Rightarrow>
          (case requireArgument node of
             Throw ex \<Rightarrow> (Throw ex, vs)
           | Return importPath \<Rightarrow>
               (case processImport e importPath s vs of
                  (Return (SuccessTrue _), vs') \<Rightarrow>
                    scanBody e rest ImportDeclarationCheck s vs'
                | (Return (SuccessFalse errors), vs') \<Rightarrow> (Return (SuccessFalse errors), vs')
                | (Throw ex, vs') \<Rightarrow> (Throw ex, vs'))))"
  by pat_completeness auto

text \<open>
  Termination: each descent raises the depth by one and validation stops a call whose
  depth is above the limit; within one file the loop walks down its statements.
\<close>

fun stageIndex :: "stage \<Rightarrow> nat" where
  "stageIndex ImportDeclarationCheck = 0"
| "stageIndex ImportExpressionCheck = 1"
| "stageIndex RequireCallCheck = 2"

definition optionsFuel :: "env \<Rightarrow> options \<Rightarrow> nat" where
  "optionsFuel e opts =
     (case depth (defaultOptions e opts) of
        JNumber d \<Rightarrow>
          (case maxDepth (defaultOptions e opts) of JNumber m \<Rightarrow> nat (m + 1 - d) | _ \<Rightarrow> 0)
      | _ \<Rightarrow> 0)"

definition settingsFuel :: "settings \<Rightarrow> nat" where
  "settingsFuel s = nat (depthLimit s - currentDepth s)"

lemma validated_fuel:
  "validateFilePathAndOptions e filePath (defaultOptions e opts) = SuccessTrue v \<Longrightarrow>
   settingsFuel (makeProcessImportSettings e fp v) < optionsFuel e opts"
  by (auto simp: validateFilePathAndOptions_def optionsFuel_def settingsFuel_def
      makeProcessImportSettings_def makeSuccessFalseTypeError_def
      split: jsval.splits if_splits option.splits)

lemma options_fuel_make: "optionsFuel e (makeFindAllImportsOptions s vs) = settingsFuel s"
  by (simp add: optionsFuel_def settingsFuel_def makeFindAllImportsOptions_def defaultOptions_def)

termination findAllImports
  apply (relation "measures
     [\<lambda>x. case x of Inl (e, fp, opts) \<Rightarrow> optionsFuel e opts
                   | Inr (Inl (e, ip, s, vs)) \<Rightarrow> settingsFuel s
                   | Inr (Inr (e, nodes, st, s, vs)) \<Rightarrow> settingsFuel s,
      \<lambda>x. case x of Inl _ \<Rightarrow> 0 | Inr (Inl _) \<Rightarrow> 1 | Inr (Inr _) \<Rightarrow> 2,
      \<lambda>x. case x of Inr (Inr (e, nodes, st, s, vs)) \<Rightarrow> 3 * length nodes - stageIndex st
                   | _ \<Rightarrow> 0]")
  apply (auto simp: validated_fuel options_fuel_make)
  done

section \<open>library/index.js: findAllImportsWithCallbackSync\<close>

text \<open>
  A synchronous callback returns or throws; either way it may have changed the
  accumulator. The \<open>catch\<close> block builds its message with \<open>`${e}`\<close> from the thrown
  value: when that conversion throws, the \<open>catch\<close> block throws.
\<close>

datatype 'a completion = Returned 'a | Threw exception 'a

type_synonym 'a syncCallback = "string \<Rightarrow> sourceCode \<Rightarrow> 'a \<Rightarrow> 'a completion"

definition callbackErrorMessage :: "string \<Rightarrow> string \<Rightarrow> string" where
  "callbackErrorMessage filePath err =
     ''ERROR. Callback error in '' @ filePath @ ''. '' @ [CHR 0x0A] @ ''Error: '' @ [CHR 0x0A] @ err"

text \<open>
  \<open>processImportWithCallbackSync\<close> destructures its third parameter on entry; a call
  that passes two arguments leaves that parameter \<open>undefined\<close> (\<open>None\<close>).
\<close>

definition undefinedDestructure :: exception where
  "undefinedDestructure =
     TypeError ''Cannot destructure property currentDir of undefined as it is undefined.''"

text \<open>
  Every function returns its outcome together with the contents of the shared
  \<open>visitedSet\<close> object and of the accumulator when it returns.
\<close>

function findAllImportsWithCallbackSync ::
    "env \<Rightarrow> jsval \<Rightarrow> 'a syncCallback callbackConfig \<Rightarrow> options \<Rightarrow> 'a \<Rightarrow>
     (jsval \<times> 'a) result outcome \<times> jsval \<times> 'a"
  and processImportWithCallbackSync ::
    "env \<Rightarrow> jsval \<Rightarrow> 'a syncCallback callbackConfig \<Rightarrow> settings option \<Rightarrow> jsval \<Rightarrow> 'a \<Rightarrow>
     (jsval \<times> 'a) result outcome \<times> jsval \<times> 'a"
  and scanBodySync ::
    "env \<Rightarrow> astBodyNode list \<Rightarrow> stage \<Rightarrow> 'a syncCallback callbackConfig \<Rightarrow> settings \<Rightarrow>
     jsval \<Rightarrow> 'a \<Rightarrow> (jsval \<times> 'a) result outcome \<times> jsval \<times> 'a"
where
  "findAllImportsWithCallbackSync e filePath callbackConfig opts acc =
     (case validateFilePathAndOptions e filePath (defaultOptions e opts) of
        SuccessFalse errors \<Rightarrow>
          (Return (SuccessFalse errors), visitedSet (defaultOptions e opts), acc)
      | SuccessTrue v \<Rightarrow>
          (case validateCallbackConfig callbackConfig of
             SuccessFalse errors \<Rightarrow> (Return (SuccessFalse errors), validVisitedSet v, acc)
           | SuccessTrue f \<Rightarrow>
               (if visitedSetHasPreviousVisit (validVisitedSet v) (validFilePath v) then
                  (Return (SuccessTrue (validVisitedSet v, acc)), validVisitedSet v, acc)
                else
                  (case f (validFilePath v) (validSourceCode v) acc of
                     Threw thrown acc' \<Rightarrow>
                       (case templateString thrown of
                          Inl ex \<Rightarrow>
                            (Throw ex, updateVisitedSet (validVisitedSet v) (validFilePath v), acc')
                        | Inr err \<Rightarrow>
                            (Return (makeSuccessFalseTypeError
                               (callbackErrorMessage (validFilePath v) err)),
                             updateVisitedSet (validVisitedSet v) (validFilePath v), acc'))
                   | Returned acc' \<Rightarrow>
                       (case ast (validSourceCode v) of
                          None \<Rightarrow>
                            (Throw (undefinedRead ''body''),
                             updateVisitedSet (validVisitedSet v) (validFilePath v), acc')
                        | Some prog \<Rightarrow>
                            scanBodySync e (body prog) ImportDeclarationCheck callbackConfig
                              (makeProcessImportSettings e (validFilePath v) v)
                              (updateVisitedSet (validVisitedSet v) (validFilePath v)) acc')))))"
| "processImportWithCallbackSync e importPath callbackConfig None vs acc =
     (Throw undefinedDestructure, vs, acc)"
| "processImportWithCallbackSync e importPath callbackConfig (Some s) vs acc =
     (case resolveImportingPath e (currentDir s) importPath (workingDir s) of
        Throw ex \<Rightarrow> (Throw ex, vs, acc)
      | Return None \<Rightarrow> (Return (SuccessTrue (vs, acc)), vs, acc)
      | Return (Some resolvedPath) \<Rightarrow>
          findAllImportsWithCallbackSync e (JString resolvedPath) callbackConfig
            (makeFindAllImportsOptions s vs) acc)"
| "scanBodySync e [] st callbackConfig s vs acc = (Return (SuccessTrue (vs, acc)), vs, acc)"
| "scanBodySync e (node # rest) ImportDeclarationCheck callbackConfig s vs acc =
     (if nodeIsImportDeclaration node then
        (case source node of
           None \<Rightarrow> (Throw (undefinedRead ''value''), vs, acc)
         | Some importPath \<Rightarrow>
             (case processImportWithCallbackSync e (JString importPath) callbackConfig (Some s) vs acc of
                (Return (SuccessTrue _), vs', acc') \<Rightarrow>
                  scanBodySync e (node # rest) ImportExpressionCheck callbackConfig s vs' acc'
              | (Return (SuccessFalse errors), vs', acc') \<Rightarrow>
                  (Return (SuccessFalse errors), vs', acc')
              | (Throw ex, vs', acc') \<Rightarrow> (Throw ex, vs', acc')))
      else scanBodySync e (node # rest) ImportExpressionCheck callbackConfig s vs acc)"
| "scanBodySync e (node # rest) ImportExpressionCheck callbackConfig s vs acc =
     (if nodeIsImportExpression node then
        (case source node of
           None \<Rightarrow> (Throw (undefinedRead ''value''), vs, acc)
         | Some importPath \<Rightarrow>
             \<comment> \<open>\<open>processImportWithCallbackSync(node.source.value, processImportSettings)\<close>:
                 the settings object is passed in the place of \<open>callbackConfig\<close> and no third
                 argument is passed.\<close>
             (case processImportWithCallbackSync e (JString importPath) callbackConfig None vs acc of
                (Return (SuccessTrue _), vs', acc') \<Rightarrow>
                  scanBodySync e (node # rest) RequireCallCheck callbackConfig s vs' acc'
              | (Return (SuccessFalse errors), vs', acc') \<Rightarrow>
                  (Return (SuccessFalse errors), vs', acc')
              | (Throw ex, vs', acc') \<Rightarrow> (Throw ex, vs', acc')))
      else scanBodySync e (node # rest) RequireCallCheck callbackConfig s vs acc)"
| "scanBodySync e (node # rest) RequireCallCheck callbackConfig s vs acc =
     (case nodeIsRequireCall node of
        Throw ex \<Rightarrow> (Throw ex, vs, acc)
      | Return False \<Rightarrow> scanBodySync e rest ImportDeclarationCheck callbackConfig s vs acc
      | Return True \<Rightarrow>
          (case requireArgument node of
             Throw ex \<Rightarrow> (Throw ex, vs, acc)
           | Return importPath \<Rightarrow>
               (case processImportWithCallbackSync e importPath callbackConfig (Some s) vs acc of
                  (Return (SuccessTrue _), vs', acc') \<Rightarrow>
                    scanBodySync e rest ImportDeclarationCheck callbackConfig s vs' acc'
                | (Return (SuccessFalse errors), vs', acc') \<Rightarrow>
                    (Return (SuccessFalse errors), vs', acc')
                | (Throw ex, vs', acc') \<Rightarrow> (Throw ex, vs', acc'))))"
  by pat_completeness auto

termination findAllImportsWithCallbackSync
  apply (relation "measures
     [\<lambda>x. case x of Inl (e, fp, cfg, opts, acc) \<Rightarrow> optionsFuel e opts
                   | Inr (Inl (e, ip, cfg, so, vs, acc)) \<Rightarrow>
                       (case so of None \<Rightarrow> 0 | Some s \<Rightarrow> settingsFuel s)
                   | Inr (Inr (e, nodes, st, cfg, s, vs, acc)) \<Rightarrow> settingsFuel s,
      \<lambda>x. case x of Inl _ \<Rightarrow> 0 | Inr (Inl _) \<Rightarrow> 1 | Inr (Inr _) \<Rightarrow> 2,
      \<lambda>x. case x of Inr (Inr (e, nodes, st, cfg, s, vs, acc)) \<Rightarrow>
                       3 * length nodes - stageIndex st
                   | _ \<Rightarrow> 0]")
  apply (auto simp: validated_fuel options_fuel_make)
  done

section \<open>library/index.js: findAllImportsWithCallbackAsync\<close>

text \<open>
  The asynchronous entry point awaits the callback and every recursive call, one after
  the other: the run is the sequential one, with \<open>Return\<close> for a promise fulfilled with a
  result and \<open>Throw\<close> for a rejected promise. The awaited callback is fulfilled or
  rejected (a callback that throws before it returns its promise is caught by the same
  \<open>try\<close> and counts as rejected). A \<open>catch\<close> block that throws rejects the promise of
  the entry point.
\<close>

datatype 'a settlement = Fulfilled 'a | Rejected exception 'a

type_synonym 'a asyncCallback = "string \<Rightarrow> sourceCode \<Rightarrow> 'a \<Rightarrow> 'a settlement"

function findAllImportsWithCallbackAsync ::
    "env \<Rightarrow> jsval \<Rightarrow> 'a asyncCallback callbackConfig \<Rightarrow> options \<Rightarrow> 'a \<Rightarrow>
     (jsval \<times> 'a) result outcome \<times> jsval \<times> 'a"
  and processImportWithCallbackAsync ::
    "env \<Rightarrow> jsval \<Rightarrow> 'a asyncCallback callbackConfig \<Rightarrow> settings option \<Rightarrow> jsval \<Rightarrow> 'a \<Rightarrow>
     (jsval \<times> 'a) result outcome \<times> jsval \<times> 'a"
  and scanBodyAsync ::
    "env \<Rightarrow> astBodyNode list \<Rightarrow> stage \<Rightarrow> 'a asyncCallback callbackConfig \<Rightarrow> settings \<Rightarrow>
     jsval \<Rightarrow> 'a \<Rightarrow> (jsval \<times> 'a) result outcome \<times> jsval \<times> 'a"
where
  "findAllImportsWithCallbackAsync e filePath callbackConfig opts acc =
     (case validateFilePathAndOptions e filePath (defaultOptions e opts) of
        SuccessFalse errors \<Rightarrow>
          (Return (SuccessFalse errors), visitedSet (defaultOptions e opts), acc)
      | SuccessTrue v \<Rightarrow>
          (case validateCallbackConfig callbackConfig of
             SuccessFalse errors \<Rightarrow> (Return (SuccessFalse errors), validVisitedSet v, acc)
           | SuccessTrue f \<Rightarrow>
               (if visitedSetHasPreviousVisit (validVisitedSet v) (validFilePath v) then
                  (Return (SuccessTrue (validVisitedSet v, acc)), validVisitedSet v, acc)
                else
                  (case f (validFilePath v) (validSourceCode v) acc of
                     Rejected thrown acc' \<Rightarrow>
                       (case templateString thrown of
                          Inl ex \<Rightarrow>
                            (Throw ex, updateVisitedSet (validVisitedSet v) (validFilePath v), acc')
                        | Inr err \<Rightarrow>
                            (Return (makeSuccessFalseTypeError
                               (callbackErrorMessage (validFilePath v) err)),
                             updateVisitedSet (validVisitedSet v) (validFilePath v), acc'))
                   | Fulfilled acc' \<Rightarrow>
                       (case ast (validSourceCode v) of
                          None \<Rightarrow>
                            (Throw (undefinedRead ''body''),
                             updateVisitedSet (validVisitedSet v) (validFilePath v), acc')
                        | Some prog \<Rightarrow>
                            scanBodyAsync e (body prog) ImportDeclarationCheck callbackConfig
                              (makeProcessImportSettings e (validFilePath v) v)
                              (updateVisitedSet (validVisitedSet v) (validFilePath v)) acc')))))"
| "processImportWithCallbackAsync e importPath callbackConfig None vs acc =
     (Throw undefinedDestructure, vs, acc)"
| "processImportWithCallbackAsync e importPath callbackConfig (Some s) vs acc =
     (case resolveImportingPath e (currentDir s) importPath (workingDir s) of
        Throw ex \<Rightarrow> (Throw ex, vs, acc)
      | Return None \<Rightarrow> (Return (SuccessTrue (vs, acc)), vs, acc)
      | Return (Some resolvedPath) \<Rightarrow>
          findAllImportsWithCallbackAsync e (JString resolvedPath) callbackConfig
            (makeFindAllImportsOptions s vs) acc)"
| "scanBodyAsync e [] st callbackConfig s vs acc = (Return (SuccessTrue (vs, acc)), vs, acc)"
| "scanBodyAsync e (node # rest) ImportDeclarationCheck callbackConfig s vs acc =
     (if nodeIsImportDeclaration node then
        (case source node of
           None \<Rightarrow> (Throw (undefinedRead ''value''), vs, acc)
         | Some importPath \<Rightarrow>
             (case processImportWithCallbackAsync e (JString importPath) callbackConfig (Some s) vs acc of
                (Return (SuccessTrue _), vs', acc') \<Rightarrow>
                  scanBodyAsync e (node # rest) ImportExpressionCheck callbackConfig s vs' acc'
              | (Return (SuccessFalse errors), vs', acc') \<Rightarrow>
                  (Return (SuccessFalse errors), vs', acc')
              | (Throw ex, vs', acc') \<Rightarrow> (Throw ex, vs', acc')))
      else scanBodyAsync e (node # rest) ImportExpressionCheck callbackConfig s vs acc)"
| "scanBodyAsync e (node # rest) ImportExpressionCheck callbackConfig s vs acc =
     (if nodeIsImportExpression node then
        (case source node of
           None \<Rightarrow> (Throw (undefinedRead ''value''), vs, acc)
         | Some importPath \<Rightarrow>
             \<comment> \<open>\<open>processImportWithCallbackAsync(node.source.value, processImportSettings)\<close>:
                 the settings object is passed in the place of \<open>callbackConfig\<close> and no third
                 argument is passed.\<close>
             (case processImportWithCallbackAsync e (JString importPath) callbackConfig None vs acc of
                (Return (SuccessTrue _), vs', acc') \<Rightarrow>
                  scanBodyAsync e (node # rest) RequireCallCheck callbackConfig s vs' acc'
              | (Return (SuccessFalse errors), vs', acc') \<Rightarrow>
                  (Return (SuccessFalse errors), vs', acc')
              | (Throw ex, vs', acc') \<Rightarrow> (Throw ex, vs', acc')))
      else scanBodyAsync e (node # rest) RequireCallCheck callbackConfig s vs acc)"
| "scanBodyAsync e (node # rest) RequireCallCheck callbackConfig s vs acc =
     (case nodeIsRequireCall node of
        Throw ex \<Rightarrow> (Throw ex, vs, acc)
      | Return False \<Rightarrow> scanBodyAsync e rest ImportDeclarationCheck callbackConfig s vs acc
      | Return True \<Rightarrow>
          (case requireArgument node of
             Throw ex \<Rightarrow> (Throw ex, vs, acc)
           | Return importPath \<Rightarrow>
               (case processImportWithCallbackAsync e importPath callbackConfig (Some s) vs acc of
                  (Return (SuccessTrue _), vs', acc') \<Rightarrow>
                    scanBodyAsync e rest ImportDeclarationCheck callbackConfig s vs' acc'
                | (Return (SuccessFalse errors), vs', acc') \<Rightarrow>
                    (Return (SuccessFalse errors), vs', acc')
                | (Throw ex, vs', acc') \<Rightarrow> (Throw ex, vs', acc'))))"
  by pat_completeness auto

termination findAllImportsWithCallbackAsync
  apply (relation "measures
     [\<lambda>x. case x of Inl (e, fp, cfg, opts, acc) \<Rightarrow> optionsFuel e opts
                   | Inr (Inl (e, ip, cfg, so, vs, acc)) \<Rightarrow>
                       (case so of None \<Rightarrow> 0 | Some s \<Rightarrow> settingsFuel s)
                   | Inr (Inr (e, nodes, st, cfg, s, vs, acc)) \<Rightarrow> settingsFuel s,
      \<lambda>x. case x of Inl _ \<Rightarrow> 0 | Inr (Inl _) \<Rightarrow> 1 | Inr (Inr _) \<Rightarrow> 2,
      \<lambda>x. case x of Inr (Inr (e, nodes, st, cfg, s, vs, acc)) \<Rightarrow>
                       3 * length nodes - stageIndex st
                   | _ \<Rightarrow> 0]")
  apply (auto simp: validated_fuel options_fuel_make)
  done

declare findAllImports.simps [simp del] processImport.simps [simp del] scanBody.simps [simp del]

declare findAllImportsWithCallbackSync.simps [simp del]
  processImportWithCallbackSync.simps [simp del] scanBodySync.simps [simp del]

declare findAllImportsWithCallbackAsync.simps [simp del]
  processImportWithCallbackAsync.simps [simp del] scanBodyAsync.simps [simp del]

section \<open>The loop body, one check at a time\<close>

text \<open>
  What one \<open>if\<close> of the loop body does with a node: nothing (\<open>Return None\<close>), a call of
  \<open>processImport\<close> on an import path, or a thrown \<open>TypeError\<close>; and where the loop
  stands after it.
\<close>

definition stageImport :: "stage \<Rightarrow> astBodyNode \<Rightarrow> jsval option outcome" where
  "stageImport st node =
     (case st of
        ImportDeclarationCheck \<Rightarrow>
          (if nodeIsImportDeclaration node then
             (case source node of
                None \<Rightarrow> Throw (undefinedRead ''value'')
              | Some importPath \<Rightarrow> Return (Some (JString importPath)))
           else Return None)
      | ImportExpressionCheck \<Rightarrow>
          (if nodeIsImportExpression node then
             (case source node of
                None \<Rightarrow> Throw (undefinedRead ''value'')
              | Some importPath \<Rightarrow> Return (Some (JString importPath)))
           else Return None)
      | RequireCallCheck \<Rightarrow>
          (case nodeIsRequireCall node of
             Throw ex \<Rightarrow> Throw ex
           | Return False \<Rightarrow> Return None
           | Return True \<Rightarrow>
               (case requireArgument node of
                  Throw ex \<Rightarrow> Throw ex
                | Return importPath \<Rightarrow> Return (Some importPath))))"

fun nextNodes :: "astBodyNode list \<Rightarrow> stage \<Rightarrow> astBodyNode list" where
  "nextNodes (node # rest) RequireCallCheck = rest"
| "nextNodes nodes st = nodes"

fun nextStage :: "stage \<Rightarrow> stage" where
  "nextStage ImportDeclarationCheck = ImportExpressionCheck"
| "nextStage ImportExpressionCheck = RequireCallCheck"
| "nextStage RequireCallCheck = ImportDeclarationCheck"

section \<open>The reference graph\<close>

text \<open>
  The import paths that a scan still has to process from a position of the loop, in the
  order of the scan; the files they resolve to (an import path on which the resolver
  returns nothing or throws leads to no file); and, for a file, the files its top-level
  statements refer to: the edges of the reference graph.
\<close>

definition importOf :: "stage \<Rightarrow> astBodyNode \<Rightarrow> jsval list" where
  "importOf st node = (case stageImport st node of Return (Some importPath) \<Rightarrow> [importPath] | _ \<Rightarrow> [])"

function pendingImports :: "astBodyNode list \<Rightarrow> stage \<Rightarrow> jsval list" where
  "pendingImports [] st = []"
| "pendingImports (node # rest) st =
     importOf st node @ pendingImports (nextNodes (node # rest) st) (nextStage st)"
  by pat_completeness auto
termination
proof (relation "measure (\<lambda>(nodes, st). 3 * length nodes - stageIndex st)")
  fix node :: astBodyNode and rest :: "astBodyNode list" and st :: stage
  show "((nextNodes (node # rest) st, nextStage st), (node # rest, st))
      \<in> measure (\<lambda>(nodes, st). 3 * length nodes - stageIndex st)"
    by (cases st) simp_all
qed simp

declare pendingImports.simps [simp del]

definition resolved :: "env \<Rightarrow> string \<Rightarrow> string \<Rightarrow> jsval \<Rightarrow> string option" where
  "resolved e dir wd importPath =
     (case resolveImportingPath e dir importPath wd of
        Return resolvedPath \<Rightarrow> resolvedPath
      | Throw _ \<Rightarrow> None)"

definition resolveAll :: "env \<Rightarrow> string \<Rightarrow> string \<Rightarrow> jsval list \<Rightarrow> string list" where
  "resolveAll e dir wd importPaths = List.map_filter (resolved e dir wd) importPaths"

definition importsOf :: "env \<Rightarrow> string \<Rightarrow> string \<Rightarrow> string list" where
  "importsOf e wd filePath =
     (case getSourceCodeFromFilePath e filePath of
        None \<Rightarrow> []
      | Some sc \<Rightarrow>
          (case ast sc of
             None \<Rightarrow> []
           | Some prog \<Rightarrow>
               resolveAll e (dirname e filePath) wd
                 (pendingImports (body prog) ImportDeclarationCheck)))"

definition references :: "env \<Rightarrow> string \<Rightarrow> (string \<times> string) set" where
  "references e wd = {(p, q). q \<in> set (importsOf e wd p)}"

definition reachable :: "env \<Rightarrow> string \<Rightarrow> string \<Rightarrow> string set" where
  "reachable e wd root = (references e wd)\<^sup>* `` {root}"

text \<open>A ledger that holds the given files, in the order of their insertion.\<close>

definition ledgerOf :: "string list \<Rightarrow> jsval" where
  "ledgerOf ps = JSet (map JString ps)"

text \<open>
  A node on which no check of the loop body throws, the call of the resolver on its
  import path included; and a file that exists and parses into such nodes.
\<close>

definition resolverReturns :: "env \<Rightarrow> string \<Rightarrow> string \<Rightarrow> jsval \<Rightarrow> bool" where
  "resolverReturns e dir wd importPath =
     (case resolveImportingPath e dir importPath wd of Throw _ \<Rightarrow> False | Return _ \<Rightarrow> True)"

definition wellFormedNode :: "env \<Rightarrow> string \<Rightarrow> string \<Rightarrow> astBodyNode \<Rightarrow> bool" where
  "wellFormedNode e dir wd node =
     list_all
       (\<lambda>st. case stageImport st node of
          Throw _ \<Rightarrow> False
        | Return None \<Rightarrow> True
        | Return (Some importPath) \<Rightarrow> resolverReturns e dir wd importPath)
       [ImportDeclarationCheck, ImportExpressionCheck, RequireCallCheck]"

definition healthy :: "env \<Rightarrow> string \<Rightarrow> string \<Rightarrow> bool" where
  "healthy e wd filePath =
     (existsSync e filePath \<and>
      (case getSourceCodeFromFilePath e filePath of
         None \<Rightarrow> False
       | Some sc \<Rightarrow>
           (case ast sc of
              None \<Rightarrow> False
            | Some prog \<Rightarrow> list_all (wellFormedNode e (dirname e filePath) wd) (body prog))))"

text \<open>The failure of the validator for a depth above the limit.\<close>

definition depthExceeded :: "int \<Rightarrow> string \<Rightarrow> 'p result" where
  "depthExceeded m fp =
     makeSuccessFalseTypeError
       (''ERROR. Max depth '' @ numberToString m @ '' reached at '' @ fp @ ''.'')"

text \<open>Options whose four properties are given and of the right types.\<close>

definition typedOptions :: "string \<Rightarrow> string list \<Rightarrow> int \<Rightarrow> int \<Rightarrow> options" where
  "typedOptions wd ps d m =
     \<lparr>cwd = JString wd, visitedSet = ledgerOf ps, depth = JNumber d, maxDepth = JNumber m\<rparr>"

text \<open>
  A linear chain: distinct files, each of which refers to the next one and to nothing
  else, the last one to nothing.
\<close>

definition chainLinks :: "env \<Rightarrow> string \<Rightarrow> string list \<Rightarrow> bool" where
  "chainLinks e wd fs =
     (distinct fs \<and>
      list_all (\<lambda>i. healthy e wd (fs ! i) \<and> importsOf e wd (fs ! i) = [fs ! Suc i])
        [0..<length fs - 1])"

definition linearChain :: "env \<Rightarrow> string \<Rightarrow> string list \<Rightarrow> bool" where
  "linearChain e wd fs =
     (fs \<noteq> [] \<and> chainLinks e wd fs \<and> healthy e wd (last fs) \<and> importsOf e wd (last fs) = [])"

section \<open>Statements and projects used in the examples\<close>

text \<open>
  The syntax-tree nodes of \<open>import x from "s"\<close>, of \<open>require("s")\<close> and of a
  \<open>require\<close> call on any literal, such as \<open>require(123)\<close>, as an ESTree parser builds
  them.
\<close>

definition importDeclaration :: "string \<Rightarrow> astBodyNode" where
  "importDeclaration s = \<lparr>node_type = ''ImportDeclaration'', source = Some s, expression = None\<rparr>"

definition requireCall :: "string \<Rightarrow> astBodyNode" where
  "requireCall s =
     \<lparr>node_type = ''ExpressionStatement'', source = None,
      expression = Some
        \<lparr>expression_type = ''CallExpression'', callee_name = Some ''require'',
         arguments = [\<lparr>argument_type = ''Literal'', argument_value = JString s\<rparr>],
         expression_source = None\<rparr>\<rparr>"

definition requireLiteral :: "jsval \<Rightarrow> astBodyNode" where
  "requireLiteral v =
     \<lparr>node_type = ''ExpressionStatement'', source = None,
      expression = Some
        \<lparr>expression_type = ''CallExpression'', callee_name = Some ''require'',
         arguments = [\<lparr>argument_type = ''Literal'', argument_value = v\<rparr>],
         expression_source = None\<rparr>\<rparr>"

text \<open>
  A project on disk: its files with their top-level statements. Absolute specifiers
  resolve to themselves, every other string (a package name) does not resolve, and on a
  specifier that is not a string the resolver throws a \<open>TypeError\<close>, as the functions
  of Node's \<open>path\<close> module do on such an argument.
\<close>

definition resolveAbsolute :: "string \<Rightarrow> jsval \<Rightarrow> string \<Rightarrow> string option outcome" where
  "resolveAbsolute dir spec wd =
     (case spec of
        JString sp \<Rightarrow> Return (if take 1 sp = ''/'' then Some sp else None)
      | _ \<Rightarrow> Throw (TypeError ''The path argument must be of type string''))"

definition projectEnv :: "(string \<times> astBodyNode list) list \<Rightarrow> env" where
  "projectEnv files =
     \<lparr>processCwd = ''/'',
      existsSync = (\<lambda>p. map_of files p \<noteq> None),
      getSourceCodeFromFilePath =
        (\<lambda>p. map_option (\<lambda>b. \<lparr>ast = Some \<lparr>body = b\<rparr>\<rparr>) (map_of files p)),
      resolveImportingPath = resolveAbsolute,
      dirname = (\<lambda>p. ''/'')\<rparr>"

text \<open>The failures of the validator for a missing and for an unparsable file.\<close>

definition fileNotFound :: "string \<Rightarrow> 'p result" where
  "fileNotFound fp = makeSuccessFalseTypeError (''ERROR. File not found at '' @ fp @ ''.'')"

definition parseFailure :: "string \<Rightarrow> 'p result" where
  "parseFailure fp =
     makeSuccessFalseTypeError (''ERROR. Failed to parse AST for '' @ fp @ '' somehow.'')"

definition hasAst :: "env \<Rightarrow> string \<Rightarrow> bool" where
  "hasAst e fp =
     (case getSourceCodeFromFilePath e fp of None \<Rightarrow> False | Some sc \<Rightarrow> ast sc \<noteq> None)"

definition visitedThenDeleted :: env where
  "visitedThenDeleted = projectEnv [(''/a'', [])]"

text \<open>
  The top-level statement \<open>import("s")\<close> as an ESTree parser builds it: an
  \<open>ExpressionStatement\<close> whose \<open>expression\<close> is the \<open>ImportExpression\<close>, as
  \<open>require("s")\<close> is an \<open>ExpressionStatement\<close> whose \<open>expression\<close> is the call.
\<close>

definition dynamicImportStatement :: "string \<Rightarrow> astBodyNode" where
  "dynamicImportStatement s =
     \<lparr>node_type = ''ExpressionStatement'', source = None,
      expression = Some
        \<lparr>expression_type = ''ImportExpression'', callee_name = None, arguments = [],
         expression_source = Some s\<rparr>\<rparr>"

definition dynamicImportProject :: env where
  "dynamicImportProject = projectEnv [(''/a'', [dynamicImportStatement ''/b'']), (''/b'', [])]"

definition staticImportProject :: env where
  "staticImportProject = projectEnv [(''/a'', [importDeclaration ''/b'']), (''/b'', [])]"

text \<open>A callback that appends the file it is called on to the accumulator.\<close>

definition recordingCallback :: "string list syncCallback" where
  "recordingCallback p sc visits = Returned (visits @ [p])"

definition countingCallback :: "nat syncCallback" where
  "countingCallback p sc n = Returned (Suc n)"

definition countingCallbackAsync :: "nat asyncCallback" where
  "countingCallbackAsync p sc n = Fulfilled (Suc n)"

definition brokenImportProject :: env where
  "brokenImportProject =
     projectEnv [(''/x'', [importDeclaration ''/y'', importDeclaration ''/z'']), (''/z'', [])]"

text \<open>
  Callbacks that count their calls and fail on \<open>/b\<close> with a given value; the string
  \<open>"boom"\<close>, and a \<open>Symbol\<close>, which a template literal cannot convert.
\<close>

definition failingCallback :: "exception \<Rightarrow> nat syncCallback" where
  "failingCallback thrown p sc n = (if p = ''/b'' then Threw thrown (Suc n) else Returned (Suc n))"

definition rejectingCallback :: "exception \<Rightarrow> nat asyncCallback" where
  "rejectingCallback thrown p sc n =
     (if p = ''/b'' then Rejected thrown (Suc n) else Fulfilled (Suc n))"

definition boom :: exception where
  "boom = Value (Inr ''boom'')"

definition symbolConversionError :: exception where
  "symbolConversionError = TypeError ''Cannot convert a Symbol value to a string''"

definition aSymbol :: exception where
  "aSymbol = Value (Inl symbolConversionError)"

text \<open>A file that exists and parses and holds \<open>require(123)\<close>.\<close>

definition numericRequireProject :: env where
  "numericRequireProject = projectEnv [(''/a'', [requireLiteral (JNumber 123)])]"

definition diamondProject :: env where
  "diamondProject =
     projectEnv
       [(''/a'', [importDeclaration ''/b'', requireCall ''/c'', importDeclaration ''lodash'']),
        (''/b'', [importDeclaration ''/c'']),
        (''/c'', [])]"

text \<open>
  A chain of \<open>n\<close> files \<open>/\<close>, \<open>/x\<close>, \<open>/xx\<close>, ... each importing the next; in a ring the
  last one imports the first.
\<close>

definition chainFile :: "nat \<Rightarrow> string" where
  "chainFile i = CHR ''/'' # replicate i CHR ''x''"

definition chainProject :: "nat \<Rightarrow> bool \<Rightarrow> env" where
  "chainProject n ring =
     \<lparr>processCwd = ''/'',
      existsSync = (\<lambda>p. p \<in> set (map chainFile [0..<n])),
      getSourceCodeFromFilePath =
        (\<lambda>p. Some \<lparr>ast = Some \<lparr>body =
           (if length p < n then [importDeclaration (p @ ''x'')]
            else if ring then [importDeclaration ''/''] else [])\<rparr>\<rparr>),
      resolveImportingPath = resolveAbsolute,
      dirname = (\<lambda>p. ''/'')\<rparr>"

text \<open>The diamond \<open>a \<rightarrow> b, c\<close> and \<open>b \<rightarrow> c\<close> is acyclic: a rank that falls along every edge.\<close>

definition diamondRank :: "string \<Rightarrow> nat" where
  "diamondRank p = (if p = ''/a'' then 2 else if p = ''/b'' then 1 else 0)"

text \<open>Two files that import each other.\<close>

definition cycleProject :: env where
  "cycleProject =
     projectEnv [(''/a'', [importDeclaration ''/b'']), (''/b'', [importDeclaration ''/a''])]"

section \<open>Validation comes before the short-circuit\<close>

lemma validate_well_typed:
  assumes "cwd (defaultOptions e opts) = JString wd"
    and "visitedSet (defaultOptions e opts) = JSet xs"
    and "visitedSetIssues (JSet xs) = []"
    and "depth (defaultOptions e opts) = JNumber d"
    and "maxDepth (defaultOptions e opts) = JNumber m"
    and "d \<le> m"
  shows "validateFilePathAndOptions e (JString fp) (defaultOptions e opts) =
     (if \<not> existsSync e fp then fileNotFound fp
      else if \<not> hasAst e fp then parseFailure fp
      else SuccessTrue
             \<lparr>validFilePath = fp, validCwd = wd, validVisitedSet = JSet xs, validDepth = d,
              validMaxDepth = m, validSourceCode = the (getSourceCodeFromFilePath e fp)\<rparr>)"
  using assms
  by (auto simp: validateFilePathAndOptions_def fileNotFound_def parseFailure_def hasAst_def
      split: option.splits)



section \<open>Failed validation touches nothing\<close>

text \<open>The triggers of a failed validation, as the specification lists them.\<close>

definition asString :: "jsval \<Rightarrow> string option" where
  "asString v = (case v of JString s \<Rightarrow> Some s | _ \<Rightarrow> None)"

definition asNumber :: "jsval \<Rightarrow> int option" where
  "asNumber v = (case v of JNumber n \<Rightarrow> Some n | _ \<Rightarrow> None)"

definition isSet :: "jsval \<Rightarrow> bool" where
  "isSet v = (case v of JSet _ \<Rightarrow> True | _ \<Rightarrow> False)"

definition failsValidation :: "env \<Rightarrow> jsval \<Rightarrow> options \<Rightarrow> bool" where
  "failsValidation e filePath opts =
     (asString filePath = None \<or> asString (cwd opts) = None \<or> \<not> isSet (visitedSet opts) \<or>
      asNumber (depth opts) = None \<or> asNumber (maxDepth opts) = None \<or>
      visitedSetIssues (visitedSet opts) \<noteq> [] \<or>
      (case asNumber (depth opts) of
         None \<Rightarrow> False
       | Some d \<Rightarrow> (case asNumber (maxDepth opts) of None \<Rightarrow> False | Some m \<Rightarrow> d > m)) \<or>
      (case asString filePath of
         None \<Rightarrow> False
       | Some fp \<Rightarrow> \<not> existsSync e fp \<or> \<not> hasAst e fp))"

lemma validation_fails_iff:
  "(\<exists>errors. validateFilePathAndOptions e filePath opts = SuccessFalse errors) \<longleftrightarrow>
   failsValidation e filePath opts"
  unfolding validateFilePathAndOptions_def failsValidation_def asString_def asNumber_def
    isSet_def hasAst_def makeSuccessFalseTypeError_def
  apply (cases filePath; simp)
  apply (cases "cwd opts"; simp)
  apply (cases "visitedSet opts"; simp)
  apply (cases "depth opts"; simp)
  apply (cases "maxDepth opts"; simp)
  apply (auto split: option.splits)
  done

text \<open>
  C8. Validation fails exactly on the listed triggers (a wrong type of \<open>filePath\<close>,
  \<open>cwd\<close>, \<open>visitedSet\<close>, \<open>depth\<close> or \<open>maxDepth\<close>, a ledger that does not pass the
  schema, a depth above the limit, a missing file, a file without syntax tree), and a
  call whose validation fails returns that very failure at once, for each entry point:
  the ledger keeps its content, the accumulator keeps its content, so the callback,
  whatever it is, has not run.
\<close>

theorem validation_failure_is_immediate:
  "((\<exists>errors. validateFilePathAndOptions e filePath (defaultOptions e opts) = SuccessFalse errors)
      \<longleftrightarrow> failsValidation e filePath (defaultOptions e opts)) \<and>
   (validateFilePathAndOptions e filePath (defaultOptions e opts) = SuccessFalse errors \<longrightarrow>
      findAllImports e filePath opts =
        (Return (SuccessFalse errors), visitedSet (defaultOptions e opts)) \<and>
      findAllImportsWithCallbackSync e filePath cs opts acc =
        (Return (SuccessFalse errors), visitedSet (defaultOptions e opts), acc) \<and>
      findAllImportsWithCallbackAsync e filePath ca opts acc =
        (Return (SuccessFalse errors), visitedSet (defaultOptions e opts), acc))"
  by (simp add: validation_fails_iff findAllImports.simps findAllImportsWithCallbackSync.simps
      findAllImportsWithCallbackAsync.simps)


theorem validation_failure_is_immediate_witness:
  "failsValidation visitedThenDeleted (JNumber 3) (defaultOptions visitedThenDeleted noOptions) \<and>
   findAllImportsWithCallbackSync visitedThenDeleted (JNumber 3)
     (CallbackConfig (Some (\<lambda>p sc n. Returned (Suc n)))) noOptions (0::nat) =
   (Return (makeSuccessFalseTypeError ''ERROR. filePath is supposed to be a string.''), JSet [], 0)"
proof -
  have v: "validateFilePathAndOptions visitedThenDeleted (JNumber 3)
             (defaultOptions visitedThenDeleted noOptions) =
           SuccessFalse [\<lparr>type = typeError, message = ''ERROR. filePath is supposed to be a string.''\<rparr>]"
    by (simp add: validateFilePathAndOptions_def makeSuccessFalseTypeError_def
        makeIsSupposedToBe_def)
  have d: "visitedSet (defaultOptions visitedThenDeleted noOptions) = JSet []"
    by (simp add: defaultOptions_def noOptions_def)
  from validation_failure_is_immediate[of visitedThenDeleted "JNumber 3" noOptions
      "[\<lparr>type = typeError, message = ''ERROR. filePath is supposed to be a string.''\<rparr>]"
      "CallbackConfig (Some (\<lambda>p sc n. Returned (Suc n)))" "0::nat" NotAnObject] v d
  show ?thesis by (auto simp: makeSuccessFalseTypeError_def)
qed

section \<open>The shape of a failure\<close>













section \<open>Dynamic imports\<close>

lemma dynamic_import_statement_skipped:
  "scanBody e (dynamicImportStatement sp # rest) ImportDeclarationCheck s vs =
   scanBody e rest ImportDeclarationCheck s vs"
  by (simp add: scanBody.simps dynamicImportStatement_def nodeIsImportDeclaration_def
      nodeIsImportExpression_def nodeIsRequireCall_def)


text \<open>
  C6. A file whose only top-level statement is \<open>import("/b")\<close>, with \<open>/b\<close> a local
  file that exists: \<open>findAllImports\<close> succeeds with the ledger \<open>{/a}\<close>, so \<open>/b\<close> is not
  discovered, where the same project with \<open>import x from "/b"\<close> gives \<open>{/a, /b}\<close>.
  \<open>nodeIsImportExpression\<close> tests the type of the statement, which for this statement
  is \<open>ExpressionStatement\<close>.
\<close>

theorem dynamic_import_not_discovered:
  "findAllImports dynamicImportProject (JString ''/a'') noOptions =
     (Return (SuccessTrue (JSet [JString ''/a''])), JSet [JString ''/a'']) \<and>
   findAllImports staticImportProject (JString ''/a'') noOptions =
     (Return (SuccessTrue (JSet [JString ''/a'', JString ''/b''])),
      JSet [JString ''/a'', JString ''/b''])"
  by code_simp

section \<open>Exceptions that leave the entry points\<close>

text \<open>
  A file that exists and parses and holds \<open>require(123)\<close>: \<open>nodeIsRequireCall\<close>
  accepts every literal, the number goes to the resolver unchecked, and what the resolver
  throws on it leaves \<open>findAllImports\<close>.
\<close>

lemma numeric_require_throws:
  "findAllImports numericRequireProject (JString ''/a'') noOptions =
     (Throw (TypeError ''The path argument must be of type string''), JSet [JString ''/a''])"
  by code_simp

text \<open>
  C7. A file \<open>/a\<close> that exists and parses, and a callback that throws a \<open>Symbol\<close>
  (for the asynchronous entry point: that rejects with one): \<open>/a\<close> is put into the
  ledger, the callback fails, and the \<open>catch\<close> block, which is there to turn the failure
  of the callback into a result, throws the \<open>TypeError\<close> of the conversion instead. The
  synchronous entry point throws and the promise of the asynchronous one is rejected;
  neither returns a result.
\<close>

theorem exception_leaves_entry_point:
  "findAllImportsWithCallbackSync staticImportProject (JString ''/a'')
     (CallbackConfig (Some (\<lambda>p sc n. Threw aSymbol (Suc n)))) noOptions (0::nat) =
     (Throw (TypeError ''Cannot convert a Symbol value to a string''), JSet [JString ''/a''], 1) \<and>
   findAllImportsWithCallbackAsync staticImportProject (JString ''/a'')
     (CallbackConfig (Some (\<lambda>p sc n. Rejected aSymbol (Suc n)))) noOptions (0::nat) =
     (Throw (TypeError ''Cannot convert a Symbol value to a string''), JSet [JString ''/a''], 1)"
  by code_simp

section \<open>Induction over a traversal\<close>

lemma scanBody_step:
  "scanBody e (node # rest) st s vs =
     (case stageImport st node of
        Throw ex \<Rightarrow> (Throw ex, vs)
      | Return None \<Rightarrow> scanBody e (nextNodes (node # rest) st) (nextStage st) s vs
      | Return (Some importPath) \<Rightarrow>
          (case processImport e importPath s vs of
             (Return (SuccessTrue _), vs') \<Rightarrow>
               scanBody e (nextNodes (node # rest) st) (nextStage st) s vs'
           | (Return (SuccessFalse errors), vs') \<Rightarrow> (Return (SuccessFalse errors), vs')
           | (Throw ex, vs') \<Rightarrow> (Throw ex, vs')))"
  by (cases st)
    (auto simp: scanBody.simps stageImport_def
      split: option.splits outcome.splits bool.splits prod.splits result.splits)

lemma traversal_induct [case_names entry import finished step]:
  assumes fai: "\<And>e filePath opts.
      (\<And>v prog. validateFilePathAndOptions e filePath (defaultOptions e opts) = SuccessTrue v \<Longrightarrow>
         \<not> visitedSetHasPreviousVisit (validVisitedSet v) (validFilePath v) \<Longrightarrow>
         ast (validSourceCode v) = Some prog \<Longrightarrow>
         P3 e (body prog) ImportDeclarationCheck (makeProcessImportSettings e (validFilePath v) v)
           (updateVisitedSet (validVisitedSet v) (validFilePath v))) \<Longrightarrow>
      P1 e filePath opts"
    and pri: "\<And>e importPath s vs.
      (\<And>resolvedPath.
         resolveImportingPath e (currentDir s) importPath (workingDir s) = Return (Some resolvedPath) \<Longrightarrow>
         P1 e (JString resolvedPath) (makeFindAllImportsOptions s vs)) \<Longrightarrow>
      P2 e importPath s vs"
    and nil: "\<And>e st s vs. P3 e [] st s vs"
    and step: "\<And>e node rest st s vs.
      (\<And>importPath. stageImport st node = Return (Some importPath) \<Longrightarrow> P2 e importPath s vs) \<Longrightarrow>
      (\<And>importPath x vs'. stageImport st node = Return (Some importPath) \<Longrightarrow>
         processImport e importPath s vs = (Return (SuccessTrue x), vs') \<Longrightarrow>
         P3 e (nextNodes (node # rest) st) (nextStage st) s vs') \<Longrightarrow>
      (stageImport st node = Return None \<Longrightarrow>
         P3 e (nextNodes (node # rest) st) (nextStage st) s vs) \<Longrightarrow>
      P3 e (node # rest) st s vs"
  shows "P1 e filePath opts" and "P2 e importPath s vs" and "P3 e nodes st s vs"
proof (induction e filePath opts and e importPath s vs and e nodes st s vs
    rule: findAllImports_processImport_scanBody.induct)
  case (1 e filePath opts)
  then show ?case by (intro fai) auto
next
  case (2 e importPath s vs)
  then show ?case by (intro pri) auto
next
  case (3 e st s vs)
  show ?case by (rule nil)
next
  case (4 e node rest s vs)
  show ?case
    by (rule step) (use 4 in \<open>auto simp: stageImport_def split: if_splits option.splits\<close>)
next
  case (5 e node rest s vs)
  show ?case
    by (rule step) (use 5 in \<open>auto simp: stageImport_def split: if_splits option.splits\<close>)
next
  case (6 e node rest s vs)
  show ?case
    by (rule step)
      (use 6 in \<open>auto simp: stageImport_def split: if_splits option.splits outcome.splits bool.splits\<close>)
qed


lemma validated_facts_case:
  "(case validateFilePathAndOptions e filePath opts of
      SuccessFalse _ \<Rightarrow> True
    | SuccessTrue v \<Rightarrow>
        filePath = JString (validFilePath v) \<and> cwd opts = JString (validCwd v) \<and>
        visitedSet opts = validVisitedSet v \<and>
        (\<exists>xs. validVisitedSet v = JSet xs \<and> visitedSetIssues (JSet xs) = []) \<and>
        depth opts = JNumber (validDepth v) \<and> maxDepth opts = JNumber (validMaxDepth v) \<and>
        validDepth v \<le> validMaxDepth v \<and> existsSync e (validFilePath v) \<and>
        getSourceCodeFromFilePath e (validFilePath v) = Some (validSourceCode v) \<and>
        ast (validSourceCode v) \<noteq> None)"
  unfolding validateFilePathAndOptions_def makeSuccessFalseTypeError_def
  apply (cases filePath; simp)
  apply (cases "cwd opts"; simp)
  apply (cases "visitedSet opts"; simp)
  apply (cases "depth opts"; simp)
  apply (cases "maxDepth opts"; simp)
  apply (auto split: option.splits)
  done

lemma validated_facts:
  assumes "validateFilePathAndOptions e filePath opts = SuccessTrue v"
  shows "filePath = JString (validFilePath v)" and "cwd opts = JString (validCwd v)"
    and "visitedSet opts = validVisitedSet v"
    and "\<exists>xs. validVisitedSet v = JSet xs \<and> visitedSetIssues (JSet xs) = []"
    and "depth opts = JNumber (validDepth v)" and "maxDepth opts = JNumber (validMaxDepth v)"
    and "validDepth v \<le> validMaxDepth v" and "existsSync e (validFilePath v)"
    and "getSourceCodeFromFilePath e (validFilePath v) = Some (validSourceCode v)"
    and "ast (validSourceCode v) \<noteq> None"
  using validated_facts_case[where e = e and filePath = filePath and opts = opts] assms
  by simp_all

lemma marked_after_update:
  "visitedSetHasPreviousVisit (updateVisitedSet (JSet xs) fp) fp"
  by (simp add: visitedSetHasPreviousVisit_def updateVisitedSet_def)

section \<open>Failures are passed on unchanged\<close>

lemma failure_origin:
  "findAllImports e filePath opts = (Return (SuccessFalse errors), vs') \<Longrightarrow>
     \<exists>fp' opts'. validateFilePathAndOptions e fp' opts' = SuccessFalse errors"
  "processImport e importPath s vs = (Return (SuccessFalse errors), vs') \<Longrightarrow>
     \<exists>fp' opts'. validateFilePathAndOptions e fp' opts' = SuccessFalse errors"
  "scanBody e nodes st s vs = (Return (SuccessFalse errors), vs') \<Longrightarrow>
     \<exists>fp' opts'. validateFilePathAndOptions e fp' opts' = SuccessFalse errors"
proof (induction e filePath opts and e importPath s vs and e nodes st s vs
    arbitrary: errors vs' and errors vs' and errors vs' rule: traversal_induct)
  case (entry e filePath opts)
  then show ?case
    by (auto simp: findAllImports.simps split: result.splits if_splits option.splits)
next
  case (import e importPath s vs)
  then show ?case by (auto simp: processImport.simps split: option.splits outcome.splits)
next
  case (finished e st s vs)
  then show ?case by (simp add: scanBody.simps)
next
  case (step e node rest st s vs)
  from step.prems show ?case
    unfolding scanBody_step
    by (auto split: outcome.splits option.splits prod.splits result.splits
        dest: step.IH)
qed

text \<open>
  C4. When a statement of a file is import-like and its specifier resolves to a child
  whose call fails, the scan of the file returns that failure at once, whatever the
  remaining statements are, with the ledger as the child left it; the call on a file
  returns the failure of its scan as it is; and a failure returned by \<open>findAllImports\<close> is
  the list of errors of one failed validation, neither wrapped nor merged with others.
\<close>

theorem child_failure_returned_unchanged:
  "(stageImport st node = Return (Some importPath) \<and>
    resolveImportingPath e (currentDir s) importPath (workingDir s) = Return (Some child) \<and>
    findAllImports e (JString child) (makeFindAllImportsOptions s vs) =
      (Return (SuccessFalse errors), vs') \<longrightarrow>
    scanBody e (node # rest) st s vs = (Return (SuccessFalse errors), vs')) \<and>
   (validateFilePathAndOptions e filePath (defaultOptions e opts) = SuccessTrue v \<and>
    \<not> visitedSetHasPreviousVisit (validVisitedSet v) (validFilePath v) \<and>
    ast (validSourceCode v) = Some prog \<and>
    scanBody e (body prog) ImportDeclarationCheck (makeProcessImportSettings e (validFilePath v) v)
      (updateVisitedSet (validVisitedSet v) (validFilePath v)) = (Return (SuccessFalse errors), vs') \<longrightarrow>
    findAllImports e filePath opts = (Return (SuccessFalse errors), vs')) \<and>
   (findAllImports e filePath opts = (Return (SuccessFalse errors), vs') \<longrightarrow>
    (\<exists>fp' opts'. validateFilePathAndOptions e fp' opts' = SuccessFalse errors))"
proof (intro conjI impI)
  assume "stageImport st node = Return (Some importPath) \<and>
    resolveImportingPath e (currentDir s) importPath (workingDir s) = Return (Some child) \<and>
    findAllImports e (JString child) (makeFindAllImportsOptions s vs) =
      (Return (SuccessFalse errors), vs')"
  then show "scanBody e (node # rest) st s vs = (Return (SuccessFalse errors), vs')"
    by (simp add: scanBody_step processImport.simps)
next
  assume "validateFilePathAndOptions e filePath (defaultOptions e opts) = SuccessTrue v \<and>
    \<not> visitedSetHasPreviousVisit (validVisitedSet v) (validFilePath v) \<and>
    ast (validSourceCode v) = Some prog \<and>
    scanBody e (body prog) ImportDeclarationCheck (makeProcessImportSettings e (validFilePath v) v)
      (updateVisitedSet (validVisitedSet v) (validFilePath v)) = (Return (SuccessFalse errors), vs')"
  then show "findAllImports e filePath opts = (Return (SuccessFalse errors), vs')"
    by (simp add: findAllImports.simps)
next
  assume "findAllImports e filePath opts = (Return (SuccessFalse errors), vs')"
  then show "\<exists>fp' opts'. validateFilePathAndOptions e fp' opts' = SuccessFalse errors"
    by (rule failure_origin(1))
qed

theorem child_failure_returned_unchanged_witness:
  "findAllImports brokenImportProject (JString ''/x'') noOptions =
     (Return (SuccessFalse [\<lparr>type = ''error'', message = ''ERROR. File not found at /y.''\<rparr>]),
      JSet [JString ''/x''])"
proof -
  let ?e = brokenImportProject
  let ?s = "\<lparr>currentDir = ''/'', workingDir = ''/'', currentDepth = 0, depthLimit = 100\<rparr>"
  let ?prog = "\<lparr>body = [importDeclaration ''/y'', importDeclaration ''/z'']\<rparr>"
  let ?v = "\<lparr>validFilePath = ''/x'', validCwd = ''/'', validVisitedSet = JSet [], validDepth = 0,
             validMaxDepth = 100, validSourceCode = \<lparr>ast = Some ?prog\<rparr>\<rparr>"
  let ?errors = "[\<lparr>type = ''error'', message = ''ERROR. File not found at /y.''\<rparr>]"
  have a1: "stageImport ImportDeclarationCheck (importDeclaration ''/y'') =
      Return (Some (JString ''/y''))"
    by code_simp
  have a2: "resolveImportingPath ?e (currentDir ?s) (JString ''/y'') (workingDir ?s) =
      Return (Some ''/y'')"
    by code_simp
  have a3: "findAllImports ?e (JString ''/y'') (makeFindAllImportsOptions ?s (JSet [JString ''/x''])) =
      (Return (SuccessFalse ?errors), JSet [JString ''/x''])"
    by code_simp
  have scan: "scanBody ?e (importDeclaration ''/y'' # [importDeclaration ''/z''])
      ImportDeclarationCheck ?s (JSet [JString ''/x'']) =
      (Return (SuccessFalse ?errors), JSet [JString ''/x''])"
    using child_failure_returned_unchanged[of ImportDeclarationCheck "importDeclaration ''/y''"
        "JString ''/y''" ?e ?s "''/y''" "JSet [JString ''/x'']" ?errors "JSet [JString ''/x'']"
        "[importDeclaration ''/z'']" "JString ''/x''" noOptions ?v ?prog] a1 a2 a3
    by blast
  have b1: "validateFilePathAndOptions ?e (JString ''/x'') (defaultOptions ?e noOptions) = SuccessTrue ?v"
    by code_simp
  have b2: "\<not> visitedSetHasPreviousVisit (validVisitedSet ?v) (validFilePath ?v)"
    by code_simp
  have b3: "makeProcessImportSettings ?e (validFilePath ?v) ?v = ?s" by code_simp
  have b4: "updateVisitedSet (validVisitedSet ?v) (validFilePath ?v) = JSet [JString ''/x'']"
    by code_simp
  show ?thesis
    using child_failure_returned_unchanged[of ImportDeclarationCheck "importDeclaration ''/y''"
        "JString ''/y''" ?e ?s "''/y''" "JSet [JString ''/x'']" ?errors "JSet [JString ''/x'']"
        "[importDeclaration ''/z'']" "JString ''/x''" noOptions ?v ?prog] b1 b2 b3 b4 scan
    by simp
qed


section \<open>A failing callback\<close>

text \<open>
  C9 (amended). A file that passes validation and is not in the ledger is put into the
  ledger before anything else. When its callback then throws (rejects with) a value
  that a template literal converts to a string, the call returns the callback failure:
  one error of type \<open>"error"\<close> whose message names the file and ends with that string.
  The ledger then holds the file and is otherwise unchanged, so no child has been
  visited, and the accumulator is as that call of the callback left it, so no other
  callback has run. When the callback returns, the scan of the children starts from the
  ledger that holds the file. A scan whose child call fails returns that failure at once
  with the ledger and the accumulator as the child left them, so no later statement is
  visited and no later callback runs.
\<close>

theorem callback_failure_after_marking:
  "(validateFilePathAndOptions e filePath (defaultOptions e opts) = SuccessTrue v \<and>
    \<not> visitedSetHasPreviousVisit (validVisitedSet v) (validFilePath v) \<longrightarrow>
      visitedSetHasPreviousVisit (updateVisitedSet (validVisitedSet v) (validFilePath v))
        (validFilePath v) \<and>
      (validateCallbackConfig cs = SuccessTrue f \<and>
       f (validFilePath v) (validSourceCode v) acc = Threw thrown accAfter \<and>
       templateString thrown = Inr err \<longrightarrow>
         findAllImportsWithCallbackSync e filePath cs opts acc =
           (Return (SuccessFalse
              [\<lparr>type = ''error'',
                message = ''ERROR. Callback error in '' @ validFilePath v @ ''. '' @ [CHR 0x0A] @
                  ''Error: '' @ [CHR 0x0A] @ err\<rparr>]),
            updateVisitedSet (validVisitedSet v) (validFilePath v), accAfter)) \<and>
      (validateCallbackConfig ca = SuccessTrue g \<and>
       g (validFilePath v) (validSourceCode v) acc = Rejected thrown accAfter \<and>
       templateString thrown = Inr err \<longrightarrow>
         findAllImportsWithCallbackAsync e filePath ca opts acc =
           (Return (SuccessFalse
              [\<lparr>type = ''error'',
                message = ''ERROR. Callback error in '' @ validFilePath v @ ''. '' @ [CHR 0x0A] @
                  ''Error: '' @ [CHR 0x0A] @ err\<rparr>]),
            updateVisitedSet (validVisitedSet v) (validFilePath v), accAfter)) \<and>
      (validateCallbackConfig cs = SuccessTrue f \<and>
       f (validFilePath v) (validSourceCode v) acc = Returned accAfter \<and>
       ast (validSourceCode v) = Some prog \<longrightarrow>
         findAllImportsWithCallbackSync e filePath cs opts acc =
           scanBodySync e (body prog) ImportDeclarationCheck cs
             (makeProcessImportSettings e (validFilePath v) v)
             (updateVisitedSet (validVisitedSet v) (validFilePath v)) accAfter) \<and>
      (validateCallbackConfig ca = SuccessTrue g \<and>
       g (validFilePath v) (validSourceCode v) acc = Fulfilled accAfter \<and>
       ast (validSourceCode v) = Some prog \<longrightarrow>
         findAllImportsWithCallbackAsync e filePath ca opts acc =
           scanBodyAsync e (body prog) ImportDeclarationCheck ca
             (makeProcessImportSettings e (validFilePath v) v)
             (updateVisitedSet (validVisitedSet v) (validFilePath v)) accAfter)) \<and>
   (stageImport st node = Return (Some importPath) \<and> st \<noteq> ImportExpressionCheck \<and>
    resolveImportingPath e (currentDir s) importPath (workingDir s) = Return (Some child) \<longrightarrow>
      (findAllImportsWithCallbackSync e (JString child) cs (makeFindAllImportsOptions s vs) acc =
         (Return (SuccessFalse errors), vs', acc') \<longrightarrow>
       scanBodySync e (node # rest) st cs s vs acc = (Return (SuccessFalse errors), vs', acc')) \<and>
      (findAllImportsWithCallbackAsync e (JString child) ca (makeFindAllImportsOptions s vs) acc =
         (Return (SuccessFalse errors), vs', acc') \<longrightarrow>
       scanBodyAsync e (node # rest) st ca s vs acc = (Return (SuccessFalse errors), vs', acc')))"
proof (intro conjI impI)
  assume a: "validateFilePathAndOptions e filePath (defaultOptions e opts) = SuccessTrue v \<and>
    \<not> visitedSetHasPreviousVisit (validVisitedSet v) (validFilePath v)"
  from a validated_facts(4)[OF conjunct1[OF a]]
  show "visitedSetHasPreviousVisit (updateVisitedSet (validVisitedSet v) (validFilePath v))
        (validFilePath v)"
    by (auto simp: marked_after_update)
  {
    assume "validateCallbackConfig cs = SuccessTrue f \<and>
       f (validFilePath v) (validSourceCode v) acc = Threw thrown accAfter \<and>
       templateString thrown = Inr err"
    with a show "findAllImportsWithCallbackSync e filePath cs opts acc =
           (Return (SuccessFalse
              [\<lparr>type = ''error'',
                message = ''ERROR. Callback error in '' @ validFilePath v @ ''. '' @ [CHR 0x0A] @
                  ''Error: '' @ [CHR 0x0A] @ err\<rparr>]),
            updateVisitedSet (validVisitedSet v) (validFilePath v), accAfter)"
      by (simp add: findAllImportsWithCallbackSync.simps makeSuccessFalseTypeError_def
          callbackErrorMessage_def typeError_def)
  }
  {
    assume "validateCallbackConfig ca = SuccessTrue g \<and>
       g (validFilePath v) (validSourceCode v) acc = Rejected thrown accAfter \<and>
       templateString thrown = Inr err"
    with a show "findAllImportsWithCallbackAsync e filePath ca opts acc =
           (Return (SuccessFalse
              [\<lparr>type = ''error'',
                message = ''ERROR. Callback error in '' @ validFilePath v @ ''. '' @ [CHR 0x0A] @
                  ''Error: '' @ [CHR 0x0A] @ err\<rparr>]),
            updateVisitedSet (validVisitedSet v) (validFilePath v), accAfter)"
      by (simp add: findAllImportsWithCallbackAsync.simps makeSuccessFalseTypeError_def
          callbackErrorMessage_def typeError_def)
  }
  {
    assume "validateCallbackConfig cs = SuccessTrue f \<and>
       f (validFilePath v) (validSourceCode v) acc = Returned accAfter \<and>
       ast (validSourceCode v) = Some prog"
    with a show "findAllImportsWithCallbackSync e filePath cs opts acc =
           scanBodySync e (body prog) ImportDeclarationCheck cs
             (makeProcessImportSettings e (validFilePath v) v)
             (updateVisitedSet (validVisitedSet v) (validFilePath v)) accAfter"
      by (simp add: findAllImportsWithCallbackSync.simps)
  }
  {
    assume "validateCallbackConfig ca = SuccessTrue g \<and>
       g (validFilePath v) (validSourceCode v) acc = Fulfilled accAfter \<and>
       ast (validSourceCode v) = Some prog"
    with a show "findAllImportsWithCallbackAsync e filePath ca opts acc =
           scanBodyAsync e (body prog) ImportDeclarationCheck ca
             (makeProcessImportSettings e (validFilePath v) v)
             (updateVisitedSet (validVisitedSet v) (validFilePath v)) accAfter"
      by (simp add: findAllImportsWithCallbackAsync.simps)
  }
next
  assume b: "stageImport st node = Return (Some importPath) \<and> st \<noteq> ImportExpressionCheck \<and>
    resolveImportingPath e (currentDir s) importPath (workingDir s) = Return (Some child)"
    and c: "findAllImportsWithCallbackSync e (JString child) cs (makeFindAllImportsOptions s vs) acc =
         (Return (SuccessFalse errors), vs', acc')"
  then show "scanBodySync e (node # rest) st cs s vs acc = (Return (SuccessFalse errors), vs', acc')"
    by (cases st)
      (auto simp: scanBodySync.simps processImportWithCallbackSync.simps stageImport_def
        split: if_splits option.splits outcome.splits bool.splits)
next
  assume b: "stageImport st node = Return (Some importPath) \<and> st \<noteq> ImportExpressionCheck \<and>
    resolveImportingPath e (currentDir s) importPath (workingDir s) = Return (Some child)"
    and c: "findAllImportsWithCallbackAsync e (JString child) ca (makeFindAllImportsOptions s vs) acc =
         (Return (SuccessFalse errors), vs', acc')"
  then show "scanBodyAsync e (node # rest) st ca s vs acc = (Return (SuccessFalse errors), vs', acc')"
    by (cases st)
      (auto simp: scanBodyAsync.simps processImportWithCallbackAsync.simps stageImport_def
        split: if_splits option.splits outcome.splits bool.splits)
qed

text \<open>
  In the diamond, a callback that throws the string \<open>"boom"\<close> on \<open>/b\<close>: the call on
  \<open>/b\<close> returns the callback failure with \<open>/b\<close> in the ledger; the call on \<open>/a\<close> returns
  the same failure with \<open>/a\<close> and \<open>/b\<close> in the ledger and two calls of the callback:
  \<open>/c\<close>, which both \<open>/b\<close> and a later statement of \<open>/a\<close> refer to, is not visited.
\<close>

theorem callback_failure_after_marking_witness:
  "findAllImportsWithCallbackSync diamondProject (JString ''/b'')
     (CallbackConfig (Some (failingCallback boom))) noOptions 0 =
     (Return (SuccessFalse
        [\<lparr>type = ''error'',
          message = ''ERROR. Callback error in /b. '' @ [CHR 0x0A] @ ''Error: '' @ [CHR 0x0A] @ ''boom''\<rparr>]),
      JSet [JString ''/b''], 1) \<and>
   findAllImportsWithCallbackSync diamondProject (JString ''/a'')
     (CallbackConfig (Some (failingCallback boom))) noOptions 0 =
     (Return (SuccessFalse
        [\<lparr>type = ''error'',
          message = ''ERROR. Callback error in /b. '' @ [CHR 0x0A] @ ''Error: '' @ [CHR 0x0A] @ ''boom''\<rparr>]),
      JSet [JString ''/a'', JString ''/b''], 2)"
proof -
  let ?e = diamondProject
  let ?v = "\<lparr>validFilePath = ''/b'', validCwd = ''/'', validVisitedSet = JSet [], validDepth = 0,
             validMaxDepth = 100,
             validSourceCode = \<lparr>ast = Some \<lparr>body = [importDeclaration ''/c'']\<rparr>\<rparr>\<rparr>"
  have h1: "validateFilePathAndOptions ?e (JString ''/b'') (defaultOptions ?e noOptions) = SuccessTrue ?v"
    by code_simp
  have h2: "\<not> visitedSetHasPreviousVisit (validVisitedSet ?v) (validFilePath ?v)"
    by code_simp
  have h3: "validateCallbackConfig (CallbackConfig (Some (failingCallback boom))) =
      SuccessTrue (failingCallback boom)"
    by (simp add: validateCallbackConfig_def)
  have h4: "failingCallback boom (validFilePath ?v) (validSourceCode ?v) 0 = Threw boom 1"
    by (simp add: failingCallback_def)
  have h5: "updateVisitedSet (validVisitedSet ?v) (validFilePath ?v) = JSet [JString ''/b'']"
    by code_simp
  have h6: "templateString boom = Inr ''boom''" by (simp add: boom_def)
  have first: "findAllImportsWithCallbackSync ?e (JString ''/b'')
     (CallbackConfig (Some (failingCallback boom))) noOptions 0 =
     (Return (SuccessFalse
        [\<lparr>type = ''error'',
          message = ''ERROR. Callback error in /b. '' @ [CHR 0x0A] @ ''Error: '' @ [CHR 0x0A] @ ''boom''\<rparr>]),
      JSet [JString ''/b''], 1)"
    using callback_failure_after_marking[where e = ?e and filePath = "JString ''/b''"
        and opts = noOptions and v = ?v and cs = "CallbackConfig (Some (failingCallback boom))"
        and f = "failingCallback boom" and acc = 0 and thrown = boom and err = "''boom''"
        and accAfter = 1 and ca = NotAnObject and st = ImportDeclarationCheck] h1 h2 h3 h4 h5 h6
    by simp
  have second: "findAllImportsWithCallbackSync ?e (JString ''/a'')
     (CallbackConfig (Some (failingCallback boom))) noOptions 0 =
     (Return (SuccessFalse
        [\<lparr>type = ''error'',
          message = ''ERROR. Callback error in /b. '' @ [CHR 0x0A] @ ''Error: '' @ [CHR 0x0A] @ ''boom''\<rparr>]),
      JSet [JString ''/a'', JString ''/b''], 2)"
    by code_simp
  from first second show ?thesis by simp
qed

text \<open>
  C9 as stated fails. In the diamond, a callback that throws a \<open>Symbol\<close> on \<open>/b\<close> (that
  rejects with one) makes the call on \<open>/a\<close> throw the \<open>TypeError\<close> of the conversion
  (makes its promise reject with it): the call does not return a failure. And the failure
  returned for a callback that throws \<open>"boom"\<close> carries the tag \<open>"error"\<close>, as every
  other failure does, not a kind \<open>CallbackFailure\<close>.
\<close>

theorem callback_failure_counterexample:
  "findAllImportsWithCallbackSync diamondProject (JString ''/a'')
     (CallbackConfig (Some (failingCallback aSymbol))) noOptions 0 =
     (Throw (TypeError ''Cannot convert a Symbol value to a string''),
      JSet [JString ''/a'', JString ''/b''], 2) \<and>
   findAllImportsWithCallbackAsync diamondProject (JString ''/a'')
     (CallbackConfig (Some (rejectingCallback aSymbol))) noOptions 0 =
     (Throw (TypeError ''Cannot convert a Symbol value to a string''),
      JSet [JString ''/a'', JString ''/b''], 2) \<and>
   findAllImportsWithCallbackAsync diamondProject (JString ''/a'')
     (CallbackConfig (Some (rejectingCallback boom))) noOptions 0 =
     (Return (SuccessFalse
        [\<lparr>type = ''error'',
          message = ''ERROR. Callback error in /b. '' @ [CHR 0x0A] @ ''Error: '' @ [CHR 0x0A] @ ''boom''\<rparr>]),
      JSet [JString ''/a'', JString ''/b''], 2) \<and>
   ''error'' \<noteq> ''CallbackFailure''"
  by code_simp

section \<open>The ledger along a traversal\<close>

lemma ledgerOf_inject [simp]: "ledgerOf ps = ledgerOf qs \<longleftrightarrow> ps = qs"
  by (simp add: ledgerOf_def inj_map_eq_map inj_def)

lemma update_ledgerOf:
  "updateVisitedSet (ledgerOf ps) fp = ledgerOf (if fp \<in> set ps then ps else ps @ [fp])"
  by (auto simp: updateVisitedSet_def ledgerOf_def)

lemma has_ledgerOf [simp]: "visitedSetHasPreviousVisit (ledgerOf ps) fp \<longleftrightarrow> fp \<in> set ps"
  by (auto simp: visitedSetHasPreviousVisit_def ledgerOf_def)

lemma issues_ledgerOf [simp]: "visitedSetIssues (ledgerOf ps) = []"
  by (auto simp: visitedSetIssues_def ledgerOf_def filter_empty_conv)

text \<open>
  A call only appends to the ledger, keeps it free of duplicates, and a success returns
  the ledger itself.
\<close>

definition ledgerStep :: "string list \<Rightarrow> jsval result outcome \<times> jsval \<Rightarrow> bool" where
  "ledgerStep ps res =
     (\<exists>qs. snd res = ledgerOf (ps @ qs) \<and> (distinct ps \<longrightarrow> distinct (ps @ qs)) \<and>
        (\<forall>r. fst res = Return (SuccessTrue r) \<longrightarrow> r = ledgerOf (ps @ qs)))"

lemma ledgerStep_here [simp]:
  "ledgerStep ps (Return (SuccessFalse errors), ledgerOf ps)"
  "ledgerStep ps (Throw ex, ledgerOf ps)"
  "ledgerStep ps (Return (SuccessTrue (ledgerOf ps)), ledgerOf ps)"
  unfolding ledgerStep_def by (rule exI[of _ "[]"], simp)+

lemma ledgerStep_trans:
  assumes "ledgerStep ps (out, vs)"
    and "\<And>qs. vs = ledgerOf (ps @ qs) \<Longrightarrow> ledgerStep (ps @ qs) res"
  shows "ledgerStep ps res"
proof -
  from assms(1) obtain qs where qs: "vs = ledgerOf (ps @ qs)" "distinct ps \<longrightarrow> distinct (ps @ qs)"
    by (auto simp: ledgerStep_def)
  from assms(2)[OF qs(1)] obtain qs' where qs': "snd res = ledgerOf ((ps @ qs) @ qs')"
    "distinct (ps @ qs) \<longrightarrow> distinct ((ps @ qs) @ qs')"
    "\<forall>r. fst res = Return (SuccessTrue r) \<longrightarrow> r = ledgerOf ((ps @ qs) @ qs')"
    by (auto simp: ledgerStep_def)
  show ?thesis
    unfolding ledgerStep_def
    by (rule exI[of _ "qs @ qs'"]) (use qs qs' in auto)
qed

lemma ledger_steps:
  "visitedSet (defaultOptions e opts) = ledgerOf ps \<Longrightarrow> ledgerStep ps (findAllImports e filePath opts)"
  "vs = ledgerOf ps \<Longrightarrow> ledgerStep ps (processImport e importPath s vs)"
  "vs = ledgerOf ps \<Longrightarrow> ledgerStep ps (scanBody e nodes st s vs)"
proof (induction e filePath opts and e importPath s vs and e nodes st s vs
    arbitrary: ps and ps and ps rule: traversal_induct)
  case (entry e filePath opts)
  show ?case
  proof (cases "validateFilePathAndOptions e filePath (defaultOptions e opts)")
    case (SuccessFalse errors)
    then show ?thesis
      using entry.prems by (simp add: findAllImports.simps)
  next
    case (SuccessTrue v)
    note facts = validated_facts[OF SuccessTrue]
    have vs: "validVisitedSet v = ledgerOf ps" using facts(3) entry.prems by simp
    show ?thesis
    proof (cases "validFilePath v \<in> set ps")
      case True
      then show ?thesis
        using SuccessTrue vs by (simp add: findAllImports.simps)
    next
      case False
      from facts(10) obtain prog where prog: "ast (validSourceCode v) = Some prog" by auto
      have upd: "updateVisitedSet (validVisitedSet v) (validFilePath v) =
          ledgerOf (ps @ [validFilePath v])"
        using False vs by (simp add: update_ledgerOf)
      have inner: "ledgerStep (ps @ [validFilePath v])
          (scanBody e (body prog) ImportDeclarationCheck
            (makeProcessImportSettings e (validFilePath v) v)
            (updateVisitedSet (validVisitedSet v) (validFilePath v)))"
        using entry.IH[OF SuccessTrue _ prog upd] False vs by simp
      have mark: "ledgerStep ps (Throw (undefinedRead ''body''), ledgerOf (ps @ [validFilePath v]))"
        unfolding ledgerStep_def using False
        by (intro exI[of _ "[validFilePath v]"]) simp
      have "ledgerStep ps
          (scanBody e (body prog) ImportDeclarationCheck
            (makeProcessImportSettings e (validFilePath v) v)
            (updateVisitedSet (validVisitedSet v) (validFilePath v)))"
        by (rule ledgerStep_trans[OF mark]) (use inner in simp)
      then show ?thesis
        using SuccessTrue vs False prog by (simp add: findAllImports.simps)
    qed
  qed
next
  case (import e importPath s vs)
  show ?case
  proof (cases "resolveImportingPath e (currentDir s) importPath (workingDir s)")
    case (Throw ex)
    then show ?thesis using import.prems by (simp add: processImport.simps)
  next
    case (Return ro)
    show ?thesis
    proof (cases ro)
      case None
      then show ?thesis using Return import.prems by (simp add: processImport.simps)
    next
      case (Some resolvedPath)
      have rs: "resolveImportingPath e (currentDir s) importPath (workingDir s) =
          Return (Some resolvedPath)"
        using Return Some by simp
      have "visitedSet (defaultOptions e (makeFindAllImportsOptions s vs)) = ledgerOf ps"
        using import.prems
        by (simp add: makeFindAllImportsOptions_def defaultOptions_def ledgerOf_def)
      from import.IH[OF rs this] show ?thesis using rs by (simp add: processImport.simps)
    qed
  qed
next
  case (finished e st s vs)
  then show ?case by (simp add: scanBody.simps)
next
  case (step e node rest st s vs)
  show ?case
  proof (cases "stageImport st node")
    case (Throw ex)
    then show ?thesis using step.prems by (simp add: scanBody_step)
  next
    case (Return r)
    show ?thesis
    proof (cases r)
      case None
      then show ?thesis using Return step.IH(3) step.prems by (simp add: scanBody_step)
    next
      case (Some importPath)
      have si: "stageImport st node = Return (Some importPath)" using Return Some by simp
      obtain out vs' where pi: "processImport e importPath s vs = (out, vs')"
        by (cases "processImport e importPath s vs")
      have first: "ledgerStep ps (out, vs')" using step.IH(1)[OF si step.prems] pi by simp
      show ?thesis
      proof (cases out)
        case (Throw ex)
        then show ?thesis using first pi si by (simp add: scanBody_step)
      next
        case (Return res)
        show ?thesis
        proof (cases res)
          case (SuccessFalse errors)
          then show ?thesis using first pi si Return by (simp add: scanBody_step)
        next
          case (SuccessTrue x)
          have pi': "processImport e importPath s vs = (Return (SuccessTrue x), vs')"
            using pi Return SuccessTrue by simp
          have "ledgerStep ps (scanBody e (nextNodes (node # rest) st) (nextStage st) s vs')"
            by (rule ledgerStep_trans[OF first]) (rule step.IH(2)[OF si pi'])
          then show ?thesis using pi' si by (simp add: scanBody_step)
        qed
      qed
    qed
  qed
qed

lemma ledgerStep_result:
  assumes "ledgerStep ps res" and "res = (out, ledgerOf ps')"
  obtains qs where "ps' = ps @ qs"
  using assms by (auto simp: ledgerStep_def)

section \<open>What a successful traversal has visited\<close>

lemma reachable_self: "fp \<in> reachable e wd fp"
  by (simp add: reachable_def)

lemma reachable_import:
  "c \<in> set (importsOf e wd fp) \<Longrightarrow> reachable e wd c \<subseteq> reachable e wd fp"
proof
  fix q assume c: "c \<in> set (importsOf e wd fp)" and q: "q \<in> reachable e wd c"
  from c have "(fp, c) \<in> references e wd" by (simp add: references_def)
  moreover from q have "(c, q) \<in> (references e wd)\<^sup>*" by (simp add: reachable_def)
  ultimately have "(fp, q) \<in> (references e wd)\<^sup>*" by (rule converse_rtrancl_into_rtrancl)
  then show "q \<in> reachable e wd fp" by (simp add: reachable_def)
qed

text \<open>
  \<open>explored e wd C ps ps'\<close>: going from ledger \<open>ps\<close> to ledger \<open>ps'\<close>, the files \<open>C\<close> are
  in the ledger, every file added has all its references in the ledger, and every file
  added is reachable from \<open>C\<close>.
\<close>

definition explored :: "env \<Rightarrow> string \<Rightarrow> string set \<Rightarrow> string list \<Rightarrow> string list \<Rightarrow> bool" where
  "explored e wd C ps ps' =
     (C \<subseteq> set ps' \<and> (\<forall>p \<in> set ps' - set ps. set (importsOf e wd p) \<subseteq> set ps') \<and>
      set ps' - set ps \<subseteq> (\<Union>c\<in>C. reachable e wd c))"

lemma explored_nil: "explored e wd {} ps ps"
  by (simp add: explored_def)

lemma explored_seq:
  assumes a: "explored e wd C1 ps (ps @ qs1)" and b: "explored e wd C2 (ps @ qs1) (ps @ qs1 @ qs2)"
  shows "explored e wd (C1 \<union> C2) ps (ps @ qs1 @ qs2)"
  unfolding explored_def
proof (intro conjI ballI subsetI)
  fix c assume "c \<in> C1 \<union> C2"
  then show "c \<in> set (ps @ qs1 @ qs2)"
    using a b unfolding explored_def by auto
next
  fix p x assume p: "p \<in> set (ps @ qs1 @ qs2) - set ps" and x: "x \<in> set (importsOf e wd p)"
  show "x \<in> set (ps @ qs1 @ qs2)"
  proof (cases "p \<in> set (ps @ qs1)")
    case True
    with p have "p \<in> set (ps @ qs1) - set ps" by simp
    with a x have "x \<in> set (ps @ qs1)" unfolding explored_def by blast
    then show ?thesis by auto
  next
    case False
    with p have "p \<in> set (ps @ qs1 @ qs2) - set (ps @ qs1)" by auto
    with b x show ?thesis unfolding explored_def by blast
  qed
next
  fix p assume p: "p \<in> set (ps @ qs1 @ qs2) - set ps"
  show "p \<in> (\<Union>c\<in>C1 \<union> C2. reachable e wd c)"
  proof (cases "p \<in> set (ps @ qs1)")
    case True
    with p have "p \<in> set (ps @ qs1) - set ps" by simp
    with a have "p \<in> (\<Union>c\<in>C1. reachable e wd c)" unfolding explored_def by blast
    then show ?thesis by blast
  next
    case False
    with p have "p \<in> set (ps @ qs1 @ qs2) - set (ps @ qs1)" by auto
    with b have "p \<in> (\<Union>c\<in>C2. reachable e wd c)" unfolding explored_def by blast
    then show ?thesis by blast
  qed
qed

lemma explored_node:
  assumes a: "explored e wd (set (importsOf e wd fp)) (ps @ [fp]) (ps @ [fp] @ qs)"
  shows "explored e wd {fp} ps (ps @ [fp] @ qs)"
  unfolding explored_def
proof (intro conjI ballI subsetI)
  fix c assume "c \<in> {fp}"
  then show "c \<in> set (ps @ [fp] @ qs)" by simp
next
  fix p x assume p: "p \<in> set (ps @ [fp] @ qs) - set ps" and x: "x \<in> set (importsOf e wd p)"
  show "x \<in> set (ps @ [fp] @ qs)"
  proof (cases "p = fp")
    case True
    with a x show ?thesis unfolding explored_def by blast
  next
    case False
    with p have "p \<in> set (ps @ [fp] @ qs) - set (ps @ [fp])" by auto
    with a x show ?thesis unfolding explored_def by blast
  qed
next
  fix p assume p: "p \<in> set (ps @ [fp] @ qs) - set ps"
  have "p \<in> reachable e wd fp"
  proof (cases "p = fp")
    case True
    then show ?thesis by (simp add: reachable_self)
  next
    case False
    with p have "p \<in> set (ps @ [fp] @ qs) - set (ps @ [fp])" by auto
    with a obtain c where "c \<in> set (importsOf e wd fp)" "p \<in> reachable e wd c"
      unfolding explored_def by blast
    then show ?thesis using reachable_import by blast
  qed
  then show "p \<in> (\<Union>c\<in>{fp}. reachable e wd c)" by simp
qed

lemma explored_closed:
  assumes "explored e wd {root} [] L"
  shows "set L = reachable e wd root"
proof
  show "set L \<subseteq> reachable e wd root" using assms by (auto simp: explored_def)
next
  have closed: "\<And>p q. p \<in> set L \<Longrightarrow> (p, q) \<in> references e wd \<Longrightarrow> q \<in> set L"
    using assms by (auto simp: explored_def references_def)
  have root: "root \<in> set L" using assms by (simp add: explored_def)
  show "reachable e wd root \<subseteq> set L"
  proof
    fix q assume "q \<in> reachable e wd root"
    then have "(root, q) \<in> (references e wd)\<^sup>*" by (simp add: reachable_def)
    then show "q \<in> set L"
      by (induction rule: rtrancl_induct) (use root closed in auto)
  qed
qed

lemma resolveAll_simps [simp]:
  "resolveAll e dir wd [] = []"
  "resolveAll e dir wd (ip # ips) =
     (case resolved e dir wd ip of
        None \<Rightarrow> resolveAll e dir wd ips
      | Some c \<Rightarrow> c # resolveAll e dir wd ips)"
  by (simp_all add: resolveAll_def List.map_filter_simps split: option.splits)

lemma resolveAll_append [simp]:
  "resolveAll e dir wd (xs @ ys) = resolveAll e dir wd xs @ resolveAll e dir wd ys"
  by (induction xs) (simp_all split: option.splits)

lemma explored_on_success:
  "filePath = JString fp \<Longrightarrow> cwd (defaultOptions e opts) = JString wd \<Longrightarrow>
   visitedSet (defaultOptions e opts) = ledgerOf ps \<Longrightarrow>
   findAllImports e filePath opts = (Return (SuccessTrue r), ledgerOf ps') \<Longrightarrow>
   explored e wd {fp} ps ps'"
  "vs = ledgerOf ps \<Longrightarrow>
   processImport e importPath s vs = (Return (SuccessTrue r), ledgerOf ps') \<Longrightarrow>
   explored e (workingDir s)
     (set (resolveAll e (currentDir s) (workingDir s) [importPath])) ps ps'"
  "vs = ledgerOf ps \<Longrightarrow>
   scanBody e nodes st s vs = (Return (SuccessTrue r), ledgerOf ps') \<Longrightarrow>
   explored e (workingDir s)
     (set (resolveAll e (currentDir s) (workingDir s) (pendingImports nodes st))) ps ps'"
proof (induction e filePath opts and e importPath s vs and e nodes st s vs
    arbitrary: fp wd ps ps' r and ps ps' r and ps ps' r rule: traversal_induct)
  case (entry e filePath opts)
  from entry.prems(4) obtain v where v: "validateFilePathAndOptions e filePath (defaultOptions e opts) = SuccessTrue v"
    by (cases "validateFilePathAndOptions e filePath (defaultOptions e opts)")
      (auto simp: findAllImports.simps)
  note facts = validated_facts[OF v]
  have fp: "validFilePath v = fp" using facts(1) entry.prems(1) by simp
  have wd: "validCwd v = wd" using facts(2) entry.prems(2) by simp
  have vs: "validVisitedSet v = ledgerOf ps" using facts(3) entry.prems(3) by simp
  show ?case
  proof (cases "fp \<in> set ps")
    case True
    with entry.prems(4) v fp vs have "ps' = ps" by (simp add: findAllImports.simps)
    with True show ?thesis by (simp add: explored_def)
  next
    case False
    from facts(10) obtain prog where prog: "ast (validSourceCode v) = Some prog" by auto
    let ?s = "makeProcessImportSettings e (validFilePath v) v"
    have upd: "updateVisitedSet (validVisitedSet v) (validFilePath v) = ledgerOf (ps @ [fp])"
      using False vs fp by (simp add: update_ledgerOf)
    have scan: "scanBody e (body prog) ImportDeclarationCheck ?s (ledgerOf (ps @ [fp])) =
        (Return (SuccessTrue r), ledgerOf ps')"
      using entry.prems(4) v fp vs False prog upd by (simp add: findAllImports.simps)
    from ledger_steps(3)[OF refl, of "ps @ [fp]" e "body prog" ImportDeclarationCheck ?s] scan
    obtain qs where qs: "ps' = (ps @ [fp]) @ qs" by (rule ledgerStep_result)
    have nv: "\<not> visitedSetHasPreviousVisit (validVisitedSet v) (validFilePath v)"
      using False vs fp by simp
    have imp: "importsOf e wd fp =
        resolveAll e (currentDir ?s) (workingDir ?s) (pendingImports (body prog) ImportDeclarationCheck)"
      using facts(9) prog fp wd by (simp add: importsOf_def makeProcessImportSettings_def)
    have "explored e (workingDir ?s)
        (set (resolveAll e (currentDir ?s) (workingDir ?s)
               (pendingImports (body prog) ImportDeclarationCheck))) (ps @ [fp]) ps'"
      using entry.IH[OF v nv prog upd] scan upd by simp
    then have "explored e wd (set (importsOf e wd fp)) (ps @ [fp]) (ps @ [fp] @ qs)"
      using imp qs wd by (simp add: makeProcessImportSettings_def)
    from explored_node[OF this] show ?thesis using qs by simp
  qed
next
  case (import e importPath s vs)
  show ?case
  proof (cases "resolveImportingPath e (currentDir s) importPath (workingDir s)")
    case (Throw ex)
    with import.prems show ?thesis by (simp add: processImport.simps)
  next
    case (Return ro)
    show ?thesis
    proof (cases ro)
      case None
      with Return import.prems have "ps' = ps" by (simp add: processImport.simps)
      with None Return show ?thesis by (simp add: explored_nil resolved_def)
    next
      case (Some c)
      have rs: "resolveImportingPath e (currentDir s) importPath (workingDir s) = Return (Some c)"
        using Return Some by simp
      have a: "cwd (defaultOptions e (makeFindAllImportsOptions s vs)) = JString (workingDir s)"
        by (simp add: makeFindAllImportsOptions_def defaultOptions_def)
      have b: "visitedSet (defaultOptions e (makeFindAllImportsOptions s vs)) = ledgerOf ps"
        using import.prems(1)
        by (simp add: makeFindAllImportsOptions_def defaultOptions_def ledgerOf_def)
      have c: "findAllImports e (JString c) (makeFindAllImportsOptions s vs) =
          (Return (SuccessTrue r), ledgerOf ps')"
        using import.prems(2) rs by (simp add: processImport.simps)
      from import.IH[OF rs refl a b c] show ?thesis using rs by (simp add: resolved_def)
    qed
  qed
next
  case (finished e st s vs)
  then have "ps' = ps" by (simp add: scanBody.simps)
  then show ?case by (simp add: pendingImports.simps explored_nil)
next
  case (step e node rest st s vs)
  let ?next = "pendingImports (nextNodes (node # rest) st) (nextStage st)"
  show ?case
  proof (cases "stageImport st node")
    case (Throw ex)
    with step.prems show ?thesis by (simp add: scanBody_step)
  next
    case (Return io)
    show ?thesis
    proof (cases io)
      case None
      with Return have si: "stageImport st node = Return None" by simp
      have "scanBody e (nextNodes (node # rest) st) (nextStage st) s vs =
          (Return (SuccessTrue r), ledgerOf ps')"
        using step.prems(2) si by (simp add: scanBody_step)
      from step.IH(3)[OF si step.prems(1) this] show ?thesis
        using si by (simp add: pendingImports.simps importOf_def)
    next
      case (Some importPath)
      with Return have si: "stageImport st node = Return (Some importPath)" by simp
      obtain out vs1 where pi: "processImport e importPath s vs = (out, vs1)"
        by (cases "processImport e importPath s vs")
      from step.prems(2) si pi obtain x where out: "out = Return (SuccessTrue x)"
        by (cases out; cases "case out of Return y \<Rightarrow> y")
          (auto simp: scanBody_step split: result.splits)
      from ledger_steps(2)[OF step.prems(1), of e importPath s] pi
      obtain qs1 where vs1: "vs1 = ledgerOf (ps @ qs1)"
        by (auto simp: ledgerStep_def)
      have pi': "processImport e importPath s vs = (Return (SuccessTrue x), ledgerOf (ps @ qs1))"
        using pi out vs1 by simp
      have scan: "scanBody e (nextNodes (node # rest) st) (nextStage st) s (ledgerOf (ps @ qs1)) =
          (Return (SuccessTrue r), ledgerOf ps')"
        using step.prems(2) si pi' by (simp add: scanBody_step)
      from ledger_steps(3)[OF refl, of "ps @ qs1" e "nextNodes (node # rest) st" "nextStage st" s] scan
      obtain qs2 where qs2: "ps' = (ps @ qs1) @ qs2" by (rule ledgerStep_result)
      have first: "explored e (workingDir s)
          (set (resolveAll e (currentDir s) (workingDir s) [importPath])) ps (ps @ qs1)"
        by (rule step.IH(1)[OF si step.prems(1) pi'])
      have second: "explored e (workingDir s)
          (set (resolveAll e (currentDir s) (workingDir s) ?next)) (ps @ qs1) (ps @ qs1 @ qs2)"
        using step.IH(2)[OF si pi' refl scan] qs2 by simp
      have "pendingImports (node # rest) st = [importPath] @ ?next"
        using si by (simp add: pendingImports.simps importOf_def)
      then show ?thesis
        using explored_seq[OF first second] qs2 by (simp only: resolveAll_append set_append append_assoc)
    qed
  qed
qed

section \<open>When a traversal succeeds\<close>

lemma wellFormedNode_stage:
  "wellFormedNode e dir wd node \<Longrightarrow>
   \<exists>io. stageImport st node = Return io \<and>
     (\<forall>importPath. io = Some importPath \<longrightarrow> resolverReturns e dir wd importPath)"
  by (cases st) (auto simp: wellFormedNode_def split: outcome.splits option.splits)

lemma wellFormed_next:
  "list_all (wellFormedNode e dir wd) (node # rest) \<Longrightarrow>
   list_all (wellFormedNode e dir wd) (nextNodes (node # rest) st)"
  by (cases st) simp_all

lemma resolver_returns:
  "resolverReturns e dir wd importPath \<Longrightarrow>
   \<exists>ro. resolveImportingPath e dir importPath wd = Return ro"
  by (auto simp: resolverReturns_def split: outcome.splits)

lemma success_guaranteed:
  fixes \<phi> :: "string \<Rightarrow> string set \<Rightarrow> nat"
  assumes files: "\<And>p. p \<in> F \<Longrightarrow> healthy e wd p \<and> set (importsOf e wd p) \<subseteq> F"
    and mono: "\<And>c V V'. V \<subseteq> V' \<Longrightarrow> \<phi> c V' \<le> \<phi> c V"
    and descent: "\<And>p c V. p \<in> F \<Longrightarrow> p \<notin> V \<Longrightarrow> c \<in> set (importsOf e wd p) \<Longrightarrow>
        \<phi> c (insert p V) < \<phi> p V"
  shows "filePath = JString fp \<Longrightarrow>
     defaultOptions e opts =
       \<lparr>cwd = JString wd, visitedSet = ledgerOf ps, depth = JNumber d, maxDepth = JNumber m\<rparr> \<Longrightarrow>
     fp \<in> F \<Longrightarrow> d + int (\<phi> fp (set ps)) \<le> m \<Longrightarrow>
     \<exists>r. fst (findAllImports e filePath opts) = Return (SuccessTrue r)"
    and "workingDir s = wd \<Longrightarrow> depthLimit s = m \<Longrightarrow> vs = ledgerOf ps \<Longrightarrow>
     resolverReturns e (currentDir s) wd importPath \<Longrightarrow>
     (\<forall>c \<in> set (resolveAll e (currentDir s) wd [importPath]).
        c \<in> F \<and> currentDepth s + 1 + int (\<phi> c (set ps)) \<le> m) \<Longrightarrow>
     \<exists>r. fst (processImport e importPath s vs) = Return (SuccessTrue r)"
    and "workingDir s = wd \<Longrightarrow> depthLimit s = m \<Longrightarrow> vs = ledgerOf ps \<Longrightarrow>
     list_all (wellFormedNode e (currentDir s) wd) nodes \<Longrightarrow>
     (\<forall>c \<in> set (resolveAll e (currentDir s) wd (pendingImports nodes st)).
        c \<in> F \<and> currentDepth s + 1 + int (\<phi> c (set ps)) \<le> m) \<Longrightarrow>
     \<exists>r. fst (scanBody e nodes st s vs) = Return (SuccessTrue r)"
  using files descent
proof (induction e filePath opts and e importPath s vs and e nodes st s vs
    arbitrary: fp ps d and ps and ps rule: traversal_induct)
  case (entry e filePath opts)
  note fl = entry.prems(5) and ds = entry.prems(6)
  have h: "healthy e wd fp" using fl entry.prems(3) by blast
  have d: "d \<le> m" using entry.prems(4) by linarith
  have ex: "existsSync e fp" and ast: "hasAst e fp"
    using h by (auto simp: healthy_def hasAst_def split: option.splits)
  let ?v = "\<lparr>validFilePath = fp, validCwd = wd, validVisitedSet = JSet (map JString ps),
      validDepth = d, validMaxDepth = m, validSourceCode = the (getSourceCodeFromFilePath e fp)\<rparr>"
  have v: "validateFilePathAndOptions e filePath (defaultOptions e opts) = SuccessTrue ?v"
    using validate_well_typed[of e opts wd "map JString ps" d m fp] entry.prems(1,2) d ex ast
    by (simp add: ledgerOf_def[symmetric])
  show ?case
  proof (cases "fp \<in> set ps")
    case True
    then show ?thesis using v by (simp add: findAllImports.simps ledgerOf_def[symmetric])
  next
    case False
    from h obtain sc prog where sc: "getSourceCodeFromFilePath e fp = Some sc"
      and prog: "ast sc = Some prog"
      and wf0: "list_all (wellFormedNode e (dirname e fp) wd) (body prog)"
      by (auto simp: healthy_def split: option.splits)
    let ?s = "makeProcessImportSettings e (validFilePath ?v) ?v"
    have wf: "list_all (wellFormedNode e (currentDir ?s) wd) (body prog)"
      using wf0 by (simp add: makeProcessImportSettings_def)
    have nv: "\<not> visitedSetHasPreviousVisit (validVisitedSet ?v) (validFilePath ?v)"
      using False by (simp add: ledgerOf_def[symmetric])
    have prog': "ast (validSourceCode ?v) = Some prog" using sc prog by simp
    have upd: "updateVisitedSet (validVisitedSet ?v) (validFilePath ?v) = ledgerOf (ps @ [fp])"
      using False by (simp add: update_ledgerOf ledgerOf_def[symmetric])
    have imp: "importsOf e wd fp =
        resolveAll e (currentDir ?s) wd (pendingImports (body prog) ImportDeclarationCheck)"
      using sc prog by (simp add: importsOf_def makeProcessImportSettings_def)
    have kids: "\<forall>c \<in> set (resolveAll e (currentDir ?s) wd
          (pendingImports (body prog) ImportDeclarationCheck)).
        c \<in> F \<and> currentDepth ?s + 1 + int (\<phi> c (set (ps @ [fp]))) \<le> m"
    proof
      fix c assume "c \<in> set (resolveAll e (currentDir ?s) wd
          (pendingImports (body prog) ImportDeclarationCheck))"
      then have c: "c \<in> set (importsOf e wd fp)" using imp by simp
      then have "c \<in> F" using fl entry.prems(3) by blast
      moreover have "\<phi> c (insert fp (set ps)) < \<phi> fp (set ps)"
        using ds[OF entry.prems(3) False c] .
      ultimately show "c \<in> F \<and> currentDepth ?s + 1 + int (\<phi> c (set (ps @ [fp]))) \<le> m"
        using entry.prems(4) by (simp add: makeProcessImportSettings_def)
    qed
    have "\<exists>r. fst (scanBody e (body prog) ImportDeclarationCheck ?s
        (updateVisitedSet (validVisitedSet ?v) (validFilePath ?v))) = Return (SuccessTrue r)"
      by (rule entry.IH[OF v nv prog' _ _ upd wf kids fl ds])
        (simp_all add: makeProcessImportSettings_def)
    then show ?thesis using v nv prog' by (simp add: findAllImports.simps)
  qed
next
  case (import e importPath s vs)
  note fl = import.prems(6) and ds = import.prems(7)
  from resolver_returns[OF import.prems(4)] import.prems(1)
  obtain ro where ro: "resolveImportingPath e (currentDir s) importPath (workingDir s) = Return ro"
    by auto
  show ?case
  proof (cases ro)
    case None
    then show ?thesis using ro by (simp add: processImport.simps)
  next
    case (Some c)
    with ro have rs: "resolveImportingPath e (currentDir s) importPath (workingDir s) =
        Return (Some c)"
      by simp
    have c: "c \<in> F" "currentDepth s + 1 + int (\<phi> c (set ps)) \<le> m"
      using import.prems(1,5) rs by (auto simp: resolved_def)
    have o: "defaultOptions e (makeFindAllImportsOptions s vs) =
        \<lparr>cwd = JString wd, visitedSet = ledgerOf ps, depth = JNumber (currentDepth s + 1),
         maxDepth = JNumber m\<rparr>"
      using import.prems(1,2,3)
      by (simp add: makeFindAllImportsOptions_def defaultOptions_def ledgerOf_def)
    from import.IH[OF rs refl o c(1) c(2) fl ds] show ?thesis
      using rs by (simp add: processImport.simps)
  qed
next
  case (finished e st s vs)
  then show ?case by (simp add: scanBody.simps)
next
  case (step e node rest st s vs)
  note fl = step.prems(6) and ds = step.prems(7)
  let ?next = "pendingImports (nextNodes (node # rest) st) (nextStage st)"
  from step.prems(4) have wfn: "wellFormedNode e (currentDir s) wd node" by simp
  from wellFormedNode_stage[OF this, of st] obtain io where io: "stageImport st node = Return io"
    and rr: "\<And>importPath. io = Some importPath \<Longrightarrow> resolverReturns e (currentDir s) wd importPath"
    by blast
  have wfnext: "list_all (wellFormedNode e (currentDir s) wd) (nextNodes (node # rest) st)"
    by (rule wellFormed_next[OF step.prems(4)])
  have pend: "pendingImports (node # rest) st = importOf st node @ ?next"
    by (simp add: pendingImports.simps)
  show ?case
  proof (cases io)
    case None
    with io have si: "stageImport st node = Return None" by simp
    have kids: "\<forall>c \<in> set (resolveAll e (currentDir s) wd ?next).
        c \<in> F \<and> currentDepth s + 1 + int (\<phi> c (set ps)) \<le> m"
      using step.prems(5) pend by simp
    from step.IH(3)[OF si step.prems(1,2,3) wfnext kids fl ds] show ?thesis
      using si by (simp add: scanBody_step)
  next
    case (Some importPath)
    with io have si: "stageImport st node = Return (Some importPath)" by simp
    have pend': "pendingImports (node # rest) st = [importPath] @ ?next"
      using pend si by (simp add: importOf_def)
    have kid1: "\<forall>c \<in> set (resolveAll e (currentDir s) wd [importPath]).
        c \<in> F \<and> currentDepth s + 1 + int (\<phi> c (set ps)) \<le> m"
      using step.prems(5) unfolding pend' resolveAll_append by simp
    from step.IH(1)[OF si step.prems(1,2,3) rr[OF Some] kid1 fl ds]
    obtain x where x: "fst (processImport e importPath s vs) = Return (SuccessTrue x)" by blast
    obtain vs1 where pi: "processImport e importPath s vs = (Return (SuccessTrue x), vs1)"
      using x by (cases "processImport e importPath s vs") simp
    from ledger_steps(2)[OF step.prems(3), of e importPath s] pi
    obtain qs1 where vs1: "vs1 = ledgerOf (ps @ qs1)" by (auto simp: ledgerStep_def)
    have kids: "\<forall>c \<in> set (resolveAll e (currentDir s) wd ?next).
        c \<in> F \<and> currentDepth s + 1 + int (\<phi> c (set (ps @ qs1))) \<le> m"
    proof
      fix c assume c: "c \<in> set (resolveAll e (currentDir s) wd ?next)"
      then have "c \<in> F \<and> currentDepth s + 1 + int (\<phi> c (set ps)) \<le> m"
        using step.prems(5) unfolding pend' resolveAll_append by simp
      moreover have "\<phi> c (set (ps @ qs1)) \<le> \<phi> c (set ps)" by (rule mono) simp
      ultimately show "c \<in> F \<and> currentDepth s + 1 + int (\<phi> c (set (ps @ qs1))) \<le> m"
        by linarith
    qed
    from step.IH(2)[OF si pi step.prems(1,2) vs1 wfnext kids fl ds] show ?thesis
      using si pi by (simp add: scanBody_step)
  qed
qed

lemma closure_when_bounded:
  fixes \<phi> :: "string \<Rightarrow> string set \<Rightarrow> nat"
  assumes files: "\<And>p. p \<in> F \<Longrightarrow> healthy e wd p \<and> set (importsOf e wd p) \<subseteq> F"
    and mono: "\<And>c V V'. V \<subseteq> V' \<Longrightarrow> \<phi> c V' \<le> \<phi> c V"
    and descent: "\<And>p c V. p \<in> F \<Longrightarrow> p \<notin> V \<Longrightarrow> c \<in> set (importsOf e wd p) \<Longrightarrow>
        \<phi> c (insert p V) < \<phi> p V"
    and root: "root \<in> F"
    and opts: "defaultOptions e opts = typedOptions wd [] d m"
    and bound: "d + int (\<phi> root {}) \<le> m"
  shows "\<exists>L. findAllImports e (JString root) opts = (Return (SuccessTrue (ledgerOf L)), ledgerOf L) \<and>
     distinct L \<and> set L = reachable e wd root"
proof -
  have o: "defaultOptions e opts =
      \<lparr>cwd = JString wd, visitedSet = ledgerOf [], depth = JNumber d, maxDepth = JNumber m\<rparr>"
    using opts by (simp add: typedOptions_def)
  have b: "d + int (\<phi> root (set [])) \<le> m" using bound by simp
  from success_guaranteed(1)[of F e wd \<phi>, OF files mono descent refl o root b]
  obtain r where r: "fst (findAllImports e (JString root) opts) = Return (SuccessTrue r)"
    by blast
  have vs: "visitedSet (defaultOptions e opts) = ledgerOf []" using o by simp
  from ledger_steps(1)[OF vs, of "JString root"] r
  obtain L where L: "snd (findAllImports e (JString root) opts) = ledgerOf L" "distinct L"
    "r = ledgerOf L"
    by (auto simp: ledgerStep_def)
  have run: "findAllImports e (JString root) opts = (Return (SuccessTrue r), ledgerOf L)"
    using r L(1) by (cases "findAllImports e (JString root) opts") simp
  have wd: "cwd (defaultOptions e opts) = JString wd" using o by simp
  from explored_on_success(1)[OF refl wd vs run] have "set L = reachable e wd root"
    by (rule explored_closed)
  with run L show ?thesis by blast
qed

lemma count_list_distinct:
  "distinct xs \<Longrightarrow> x \<in> set xs \<Longrightarrow> count_list xs x = 1"
  by (induction xs) auto

section \<open>Linear chains and the depth limit\<close>

text \<open>The scan of a well-formed body visits the files it refers to, one after the other.\<close>

fun visitAll :: "env \<Rightarrow> settings \<Rightarrow> string list \<Rightarrow> jsval \<Rightarrow> jsval result outcome \<times> jsval" where
  "visitAll e s [] vs = (Return (SuccessTrue vs), vs)"
| "visitAll e s (c # cs) vs =
     (case findAllImports e (JString c) (makeFindAllImportsOptions s vs) of
        (Return (SuccessTrue _), vs') \<Rightarrow> visitAll e s cs vs'
      | (Return (SuccessFalse errors), vs') \<Rightarrow> (Return (SuccessFalse errors), vs')
      | (Throw ex, vs') \<Rightarrow> (Throw ex, vs'))"

lemma scanBody_visitAll:
  "list_all (wellFormedNode e (currentDir s) (workingDir s)) nodes \<Longrightarrow>
   scanBody e nodes st s vs =
     visitAll e s (resolveAll e (currentDir s) (workingDir s) (pendingImports nodes st)) vs"
proof (induction nodes st arbitrary: vs rule: pendingImports.induct)
  case (1 st)
  show ?case by (simp add: scanBody.simps pendingImports.simps)
next
  case (2 node rest st)
  let ?nodes = "nextNodes (node # rest) st"
  let ?st = "nextStage st"
  from 2(2) have "wellFormedNode e (currentDir s) (workingDir s) node" by simp
  from wellFormedNode_stage[OF this, of st] obtain io where io: "stageImport st node = Return io"
    and rr: "\<And>importPath. io = Some importPath \<Longrightarrow>
      resolverReturns e (currentDir s) (workingDir s) importPath"
    by blast
  have wf: "list_all (wellFormedNode e (currentDir s) (workingDir s)) ?nodes"
    by (rule wellFormed_next[OF 2(2)])
  note IH = 2(1)[OF wf]
  show ?case
  proof (cases io)
    case None
    with io show ?thesis
      by (simp add: scanBody_step pendingImports.simps(2) importOf_def IH)
  next
    case (Some importPath)
    with io have si: "stageImport st node = Return (Some importPath)" by simp
    from resolver_returns[OF rr[OF Some]]
    obtain ro where ro: "resolveImportingPath e (currentDir s) importPath (workingDir s) = Return ro"
      by blast
    show ?thesis
    proof (cases ro)
      case None
      with si ro show ?thesis
        by (simp add: scanBody_step pendingImports.simps(2) importOf_def IH
            processImport.simps resolved_def)
    next
      case (Some c)
      with si ro show ?thesis
        by (simp add: scanBody_step pendingImports.simps(2) importOf_def IH
            processImport.simps resolved_def split: prod.splits outcome.splits result.splits)
    qed
  qed
qed

lemma findAllImports_typed:
  assumes "defaultOptions e opts = typedOptions wd ps d m"
  shows "findAllImports e (JString fp) opts =
     (if d > m then (Return (depthExceeded m fp), ledgerOf ps)
      else if \<not> existsSync e fp then (Return (fileNotFound fp), ledgerOf ps)
      else if \<not> hasAst e fp then (Return (parseFailure fp), ledgerOf ps)
      else if fp \<in> set ps then (Return (SuccessTrue (ledgerOf ps)), ledgerOf ps)
      else scanBody e (body (the (ast (the (getSourceCodeFromFilePath e fp)))))
             ImportDeclarationCheck
             \<lparr>currentDir = dirname e fp, workingDir = wd, currentDepth = d, depthLimit = m\<rparr>
             (ledgerOf (ps @ [fp])))"
proof (cases "d > m")
  case True
  have "validateFilePathAndOptions e (JString fp) (defaultOptions e opts) = depthExceeded m fp"
    using True assms
    by (simp add: validateFilePathAndOptions_def typedOptions_def depthExceeded_def ledgerOf_def
        issues_ledgerOf[unfolded ledgerOf_def])
  then show ?thesis
    using True assms
    by (simp add: findAllImports.simps depthExceeded_def makeSuccessFalseTypeError_def
        typedOptions_def)
next
  case False
  have t: "cwd (defaultOptions e opts) = JString wd"
    "visitedSet (defaultOptions e opts) = JSet (map JString ps)"
    "visitedSetIssues (JSet (map JString ps)) = []"
    "depth (defaultOptions e opts) = JNumber d" "maxDepth (defaultOptions e opts) = JNumber m"
    "d \<le> m"
    using assms False issues_ledgerOf[of ps] by (simp_all add: typedOptions_def ledgerOf_def)
  note v = validate_well_typed[OF t, of fp]
  show ?thesis
  proof (cases "existsSync e fp \<and> hasAst e fp")
    case False
    then show ?thesis
      using v \<open>\<not> d > m\<close> t(2)
      by (auto simp: findAllImports.simps fileNotFound_def parseFailure_def
          makeSuccessFalseTypeError_def ledgerOf_def)
  next
    case True
    then obtain sc prog where sc: "getSourceCodeFromFilePath e fp = Some sc" "ast sc = Some prog"
      by (auto simp: hasAst_def split: option.splits)
    show ?thesis
      using v True \<open>\<not> d > m\<close> sc
      by (simp add: findAllImports.simps ledgerOf_def[symmetric] update_ledgerOf
          makeProcessImportSettings_def)
  qed
qed

lemma chainLinks_at:
  assumes "chainLinks e wd (pre @ f # g # suf)"
  shows "healthy e wd f" and "importsOf e wd f = [g]" and "f \<notin> set pre"
proof -
  let ?fs = "pre @ f # g # suf"
  have i: "length pre \<in> set [0..<length ?fs - 1]" by simp
  from assms have "healthy e wd (?fs ! length pre) \<and>
      importsOf e wd (?fs ! length pre) = [?fs ! Suc (length pre)]"
    unfolding chainLinks_def list_all_iff using i by blast
  then show "healthy e wd f" and "importsOf e wd f = [g]"
    by (simp_all add: nth_append)
  from assms show "f \<notin> set pre" by (auto simp: chainLinks_def)
qed

lemma healthy_scan:
  assumes "healthy e wd fp"
  shows "existsSync e fp" and "hasAst e fp"
    and "scanBody e (body (the (ast (the (getSourceCodeFromFilePath e fp))))) ImportDeclarationCheck
           \<lparr>currentDir = dirname e fp, workingDir = wd, currentDepth = d, depthLimit = m\<rparr> vs =
         visitAll e \<lparr>currentDir = dirname e fp, workingDir = wd, currentDepth = d, depthLimit = m\<rparr>
           (importsOf e wd fp) vs"
proof -
  let ?s = "\<lparr>currentDir = dirname e fp, workingDir = wd, currentDepth = d, depthLimit = m\<rparr>"
  from assms obtain sc prog where sc: "getSourceCodeFromFilePath e fp = Some sc" "ast sc = Some prog"
    and wf0: "list_all (wellFormedNode e (dirname e fp) wd) (body prog)" and ex: "existsSync e fp"
    by (auto simp: healthy_def split: option.splits)
  have wf: "list_all (wellFormedNode e (currentDir ?s) (workingDir ?s)) (body prog)"
    using wf0 by simp
  show "existsSync e fp" by (rule ex)
  show "hasAst e fp" using sc by (simp add: hasAst_def)
  show "scanBody e (body (the (ast (the (getSourceCodeFromFilePath e fp))))) ImportDeclarationCheck
           \<lparr>currentDir = dirname e fp, workingDir = wd, currentDepth = d, depthLimit = m\<rparr> vs =
         visitAll e \<lparr>currentDir = dirname e fp, workingDir = wd, currentDepth = d, depthLimit = m\<rparr>
           (importsOf e wd fp) vs"
    using sc scanBody_visitAll[OF wf] by (simp add: importsOf_def)
qed

text \<open>The run along a chain: one more level of depth for each file.\<close>

fun chainRun :: "int \<Rightarrow> int \<Rightarrow> string list \<Rightarrow> string list \<Rightarrow> jsval result outcome \<times> jsval" where
  "chainRun d m pre [] = (Return (SuccessTrue (ledgerOf pre)), ledgerOf pre)"
| "chainRun d m pre (f # suf) =
     (if d > m then (Return (depthExceeded m f), ledgerOf pre)
      else chainRun (d + 1) m (pre @ [f]) suf)"

lemma chain_run:
  assumes "chainLinks e wd (pre @ f # suf)"
    and "d + int (length suf) \<le> m \<Longrightarrow>
           healthy e wd (last (f # suf)) \<and> importsOf e wd (last (f # suf)) = []"
    and "defaultOptions e opts = typedOptions wd pre d m"
  shows "findAllImports e (JString f) opts = chainRun d m pre (f # suf)"
  using assms
proof (induction suf arbitrary: pre f d opts)
  case Nil
  show ?case
  proof (cases "d > m")
    case True
    then show ?thesis by (simp add: findAllImports_typed[OF Nil(3)])
  next
    case False
    then have h: "healthy e wd f" and i: "importsOf e wd f = []" using Nil(2) by simp_all
    have "f \<notin> set pre" using Nil(1) by (auto simp: chainLinks_def)
    then show ?thesis
      using False healthy_scan[OF h] i by (simp add: findAllImports_typed[OF Nil(3)])
  qed
next
  case (Cons g suf)
  show ?case
  proof (cases "d > m")
    case True
    then show ?thesis by (simp add: findAllImports_typed[OF Cons(4)])
  next
    case False
    note at = chainLinks_at[OF Cons(2)]
    let ?s = "\<lparr>currentDir = dirname e f, workingDir = wd, currentDepth = d, depthLimit = m\<rparr>"
    have o: "defaultOptions e (makeFindAllImportsOptions ?s (ledgerOf (pre @ [f]))) =
        typedOptions wd (pre @ [f]) (d + 1) m"
      by (simp add: makeFindAllImportsOptions_def defaultOptions_def typedOptions_def ledgerOf_def)
    have links: "chainLinks e wd ((pre @ [f]) @ g # suf)" using Cons(2) by simp
    have lst: "d + 1 + int (length suf) \<le> m \<Longrightarrow>
        healthy e wd (last (g # suf)) \<and> importsOf e wd (last (g # suf)) = []"
      using Cons(3) by simp
    have child: "findAllImports e (JString g) (makeFindAllImportsOptions ?s (ledgerOf (pre @ [f]))) =
        chainRun (d + 1) m (pre @ [f]) (g # suf)"
      by (rule Cons.IH[OF links lst o])
    have shape: "\<exists>out L. chainRun (d + 1) m (pre @ [f]) (g # suf) = (out, ledgerOf L) \<and>
        (out = Return (SuccessTrue (ledgerOf L)) \<or> (\<exists>errors. out = Return (SuccessFalse errors)))"
      for d pre f
    proof (induction suf arbitrary: d pre f g)
      case Nil
      then show ?case by (auto simp: depthExceeded_def makeSuccessFalseTypeError_def)
    next
      case (Cons h suf)
      from Cons[of "d + 1" "pre @ [f]" g h] show ?case
        by (auto simp: depthExceeded_def makeSuccessFalseTypeError_def)
    qed
    from shape[of d pre f] obtain out L where run: "chainRun (d + 1) m (pre @ [f]) (g # suf) = (out, ledgerOf L)"
      and out: "out = Return (SuccessTrue (ledgerOf L)) \<or> (\<exists>errors. out = Return (SuccessFalse errors))"
      by blast
    have "visitAll e ?s [g] (ledgerOf (pre @ [f])) = chainRun (d + 1) m (pre @ [f]) (g # suf)"
      using child run out by (auto simp del: chainRun.simps)
    then show ?thesis
      using False at healthy_scan[OF at(1)]
      by (simp add: findAllImports_typed[OF Cons(4)] del: visitAll.simps)
  qed
qed

lemma chainRun_success:
  "d + int (length suf) \<le> m + 1 \<Longrightarrow>
   chainRun d m pre suf = (Return (SuccessTrue (ledgerOf (pre @ suf))), ledgerOf (pre @ suf))"
  by (induction suf arbitrary: d pre) auto

lemma chainRun_failure:
  "suf \<noteq> [] \<Longrightarrow> d + int (length suf) = m + 2 \<Longrightarrow>
   chainRun d m pre suf = (Return (depthExceeded m (last suf)), ledgerOf (pre @ butlast suf))"
proof (induction suf arbitrary: d pre)
  case Nil
  then show ?case by simp
next
  case (Cons f suf)
  show ?case
  proof (cases suf)
    case Nil
    with Cons.prems show ?thesis by simp
  next
    case (Cons g rest)
    with Cons.prems Cons.IH[of "d + 1" "pre @ [f]"] show ?thesis by simp
  qed
qed

lemma depth_check_iff:
  "validateFilePathAndOptions e (JString fp) (typedOptions wd ps d m) = depthExceeded m fp \<longleftrightarrow> d > m"
proof (cases "d > m")
  case True
  then show ?thesis
    by (simp add: validateFilePathAndOptions_def typedOptions_def depthExceeded_def ledgerOf_def
        issues_ledgerOf[unfolded ledgerOf_def])
next
  case False
  have "validateFilePathAndOptions e (JString fp) (typedOptions wd ps d m) =
     (if \<not> existsSync e fp then fileNotFound fp
      else if \<not> hasAst e fp then parseFailure fp
      else SuccessTrue
             \<lparr>validFilePath = fp, validCwd = wd, validVisitedSet = JSet (map JString ps),
              validDepth = d, validMaxDepth = m,
              validSourceCode = the (getSourceCodeFromFilePath e fp)\<rparr>)"
    using False
    by (auto simp: validateFilePathAndOptions_def typedOptions_def ledgerOf_def hasAst_def
        fileNotFound_def parseFailure_def issues_ledgerOf[unfolded ledgerOf_def]
        split: option.splits)
  then show ?thesis
    using False
    by (simp add: fileNotFound_def parseFailure_def depthExceeded_def makeSuccessFalseTypeError_def)
qed

lemma pending_importDeclaration:
  "pendingImports [importDeclaration sp] ImportDeclarationCheck = [JString sp]"
  by (simp add: pendingImports.simps importOf_def stageImport_def importDeclaration_def
      nodeIsImportDeclaration_def nodeIsImportExpression_def nodeIsRequireCall_def)

lemma wellFormed_importDeclaration:
  "resolverReturns e dir wd (JString sp) \<Longrightarrow> wellFormedNode e dir wd (importDeclaration sp)"
  by (simp add: wellFormedNode_def stageImport_def importDeclaration_def
      nodeIsImportDeclaration_def nodeIsImportExpression_def nodeIsRequireCall_def)

lemma chainFile_next: "chainFile i @ ''x'' = chainFile (Suc i)"
  by (simp add: chainFile_def replicate_append_same)

lemma chainFile_inj: "chainFile i = chainFile j \<longleftrightarrow> i = j"
proof
  assume "chainFile i = chainFile j"
  then have "length (chainFile i) = length (chainFile j)" by simp
  then show "i = j" by (simp add: chainFile_def)
qed simp

lemma chain_project_file:
  assumes "i < n"
  shows "healthy (chainProject n ring) wd (chainFile i)"
    and "importsOf (chainProject n ring) wd (chainFile i) =
       (if Suc i < n then [chainFile (Suc i)] else if ring then [chainFile 0] else [])"
proof -
  let ?e = "chainProject n ring"
  have len: "length (chainFile i) = Suc i" by (simp add: chainFile_def)
  have src: "getSourceCodeFromFilePath ?e (chainFile i) =
      Some \<lparr>ast = Some \<lparr>body =
        (if Suc i < n then [importDeclaration (chainFile (Suc i))]
         else if ring then [importDeclaration (chainFile 0)] else [])\<rparr>\<rparr>"
    by (simp add: chainProject_def len chainFile_next) (simp add: chainFile_def)
  have res: "resolveImportingPath (chainProject n r) dir (JString (chainFile k)) wd =
      Return (Some (chainFile k))"
    for dir k r
    by (simp add: chainProject_def chainFile_def resolveAbsolute_def)
  have ret: "resolverReturns (chainProject n r) dir wd (JString sp)" for dir sp r
    by (simp add: resolverReturns_def chainProject_def resolveAbsolute_def)
  have wf: "wellFormedNode (chainProject n r) dir wd (importDeclaration sp)" for dir sp r
    by (rule wellFormed_importDeclaration) (rule ret)
  have ex: "existsSync ?e (chainFile i)" using assms by (simp add: chainProject_def)
  show "healthy ?e wd (chainFile i)"
    unfolding healthy_def src using ex wf by simp
  show "importsOf ?e wd (chainFile i) =
       (if Suc i < n then [chainFile (Suc i)] else if ring then [chainFile 0] else [])"
    unfolding importsOf_def src
    by (simp add: pending_importDeclaration res resolved_def pendingImports.simps(1))
qed

lemma chain_project_links:
  "chainLinks (chainProject n ring) wd (map chainFile [0..<n])"
  unfolding chainLinks_def list_all_iff
proof (rule conjI)
  show "distinct (map chainFile [0..<n])"
    by (simp add: distinct_map inj_on_def chainFile_inj)
next
  show "\<forall>i\<in>set [0..<length (map chainFile [0..<n]) - 1].
      healthy (chainProject n ring) wd (map chainFile [0..<n] ! i) \<and>
      importsOf (chainProject n ring) wd (map chainFile [0..<n] ! i) =
      [map chainFile [0..<n] ! Suc i]"
  proof (rule ballI)
    fix i assume "i \<in> set [0..<length (map chainFile [0..<n]) - 1]"
    then have i: "Suc i < n" by simp
    then have "i < n" by simp
    from chain_project_file(1)[OF this, where ring = ring and wd = wd]
      chain_project_file(2)[OF this, where ring = ring and wd = wd] i
    show "healthy (chainProject n ring) wd (map chainFile [0..<n] ! i) \<and>
        importsOf (chainProject n ring) wd (map chainFile [0..<n] ! i) =
        [map chainFile [0..<n] ! Suc i]"
      by simp
  qed
qed

lemma chain_project_linear:
  assumes "0 < n"
  shows "linearChain (chainProject n False) wd (map chainFile [0..<n])"
proof -
  have l: "last (map chainFile [0..<n]) = chainFile (n - 1)"
    using assms by (simp add: last_map)
  have "n - 1 < n" using assms by simp
  from chain_project_file(1)[OF this, where ring = False and wd = wd]
    chain_project_file(2)[OF this, where ring = False and wd = wd] l assms
    chain_project_links[of n False wd]
  show ?thesis by (simp add: linearChain_def)
qed

lemma chain_files_split:
  "map chainFile [0..<Suc n] = ''/'' # map chainFile [1..<Suc n]"
proof -
  have "[0..<Suc n] = 0 # [1..<Suc n]" by (simp add: upt_rec[of 0 "Suc n"] del: upt_Suc)
  then show ?thesis by (simp add: chainFile_def del: upt_Suc)
qed

lemma chain_project_fails:
  assumes "defaultOptions (chainProject (Suc (Suc N)) ring) opts = typedOptions ''/'' [] 0 (int N)"
  shows "findAllImports (chainProject (Suc (Suc N)) ring) (JString ''/'') opts =
     (Return (depthExceeded (int N) (chainFile (Suc N))), ledgerOf (map chainFile [0..<Suc N]))"
proof -
  let ?e = "chainProject (Suc (Suc N)) ring"
  let ?fs = "map chainFile [0..<Suc (Suc N)]"
  let ?rest = "map chainFile [1..<Suc (Suc N)]"
  have fs: "?fs = ''/'' # ?rest" by (rule chain_files_split)
  have links: "chainLinks ?e ''/'' ([] @ ''/'' # ?rest)"
    using chain_project_links[of "Suc (Suc N)" ring "''/''"] unfolding fs by simp
  have lst: "healthy ?e ''/'' (last (''/'' # ?rest)) \<and>
      importsOf ?e ''/'' (last (''/'' # ?rest)) = []"
    if "0 + int (length ?rest) \<le> int N"
  proof -
    from that have False by (simp del: upt_Suc)
    then show ?thesis ..
  qed
  have run: "findAllImports ?e (JString ''/'') opts = chainRun 0 (int N) [] (''/'' # ?rest)"
    by (rule chain_run[OF links lst assms])
  have ne: "?fs \<noteq> []" unfolding fs by simp
  have ln: "0 + int (length ?fs) = int N + 2" by (simp del: upt_Suc)
  have fail: "chainRun 0 (int N) [] ?fs =
      (Return (depthExceeded (int N) (last ?fs)), ledgerOf ([] @ butlast ?fs))"
    by (rule chainRun_failure[OF ne ln])
  have l: "last ?fs = chainFile (Suc N)" by (simp add: last_map del: upt_Suc)
  have b: "butlast ?fs = map chainFile [0..<Suc N]"
    by (simp add: butlast_append)
  show ?thesis
    unfolding run fs[symmetric] fail l b by simp
qed

text \<open>
  C3. With \<open>maxDepth = N\<close> and the default depth \<open>0\<close>, the traversal of a linear chain
  of \<open>N + 2\<close> files returns the depth failure for the last file, with all the files
  before it in the ledger, and the traversal of a linear chain of \<open>N + 1\<close> files succeeds
  with the whole chain in the ledger. Each descent passes \<open>depth + 1\<close>, and validation
  returns the depth failure exactly when \<open>depth > maxDepth\<close>. The failure of the deepest
  call is the result of the call on the first file: it has gone up through every frame.
\<close>

theorem depth_limit_on_chains:
  assumes "linearChain e (processCwd e) fs"
  shows
    "(length fs = N + 2 \<longrightarrow>
        findAllImports e (JString (hd fs)) (noOptions\<lparr>maxDepth := JNumber (int N)\<rparr>) =
          (Return (depthExceeded (int N) (last fs)), ledgerOf (butlast fs))) \<and>
     (length fs = N + 1 \<longrightarrow>
        findAllImports e (JString (hd fs)) (noOptions\<lparr>maxDepth := JNumber (int N)\<rparr>) =
          (Return (SuccessTrue (ledgerOf fs)), ledgerOf fs)) \<and>
     depth (makeFindAllImportsOptions s vs) = JNumber (currentDepth s + 1) \<and>
     (validateFilePathAndOptions e (JString fp) (typedOptions wd ps d m) = depthExceeded m fp
        \<longleftrightarrow> d > m)"
proof -
  let ?opts = "noOptions\<lparr>maxDepth := JNumber (int N)\<rparr>"
  from assms obtain f suf where fs: "fs = f # suf" by (cases fs) (auto simp: linearChain_def)
  have o: "defaultOptions e ?opts = typedOptions (processCwd e) [] 0 (int N)"
    by (simp add: defaultOptions_def noOptions_def typedOptions_def ledgerOf_def)
  have links: "chainLinks e (processCwd e) ([] @ f # suf)"
    using assms fs by (simp add: linearChain_def)
  have lst: "healthy e (processCwd e) (last (f # suf)) \<and>
      importsOf e (processCwd e) (last (f # suf)) = []"
    using assms fs by (simp add: linearChain_def)
  have run: "findAllImports e (JString f) ?opts = chainRun 0 (int N) [] (f # suf)"
    by (rule chain_run[OF links lst o])
  have a: "length fs = N + 2 \<longrightarrow>
        findAllImports e (JString (hd fs)) ?opts =
          (Return (depthExceeded (int N) (last fs)), ledgerOf (butlast fs))"
    using run fs chainRun_failure[of "f # suf" 0 "int N" "[]"] by (simp del: chainRun.simps)
  have b: "length fs = N + 1 \<longrightarrow>
        findAllImports e (JString (hd fs)) ?opts = (Return (SuccessTrue (ledgerOf fs)), ledgerOf fs)"
    using run fs chainRun_success[of 0 "f # suf" "int N" "[]"] by (simp del: chainRun.simps)
  have c: "depth (makeFindAllImportsOptions s vs) = JNumber (currentDepth s + 1)"
    by (simp add: makeFindAllImportsOptions_def)
  from a b c depth_check_iff show ?thesis by blast
qed

theorem depth_limit_on_chains_witness:
  "findAllImports (chainProject 3 False) (JString ''/'') (noOptions\<lparr>maxDepth := JNumber 1\<rparr>) =
     (Return (depthExceeded 1 ''/xx''), ledgerOf [''/'', ''/x'']) \<and>
   findAllImports (chainProject 2 False) (JString ''/'') (noOptions\<lparr>maxDepth := JNumber 1\<rparr>) =
     (Return (SuccessTrue (ledgerOf [''/'', ''/x''])), ledgerOf [''/'', ''/x''])"
proof -
  have fs3: "map chainFile [0..<3] = [''/'', ''/x'', ''/xx'']" by code_simp
  have fs2: "map chainFile [0..<2] = [''/'', ''/x'']" by code_simp
  have c3: "linearChain (chainProject 3 False) (processCwd (chainProject 3 False)) [''/'', ''/x'', ''/xx'']"
    using chain_project_linear[of 3 "processCwd (chainProject 3 False)"] fs3 by simp
  have c2: "linearChain (chainProject 2 False) (processCwd (chainProject 2 False)) [''/'', ''/x'']"
    using chain_project_linear[of 2 "processCwd (chainProject 2 False)"] fs2 by simp
  from depth_limit_on_chains[OF c3, where N = 1] depth_limit_on_chains[OF c2, where N = 1]
  show ?thesis by simp
qed

section \<open>The closure of the root\<close>

text \<open>
  C1 (amended). For every acyclic reference graph in which no path from the root has
  more than 100 references (a rank of at most 100 at the root that falls along every
  reference) and whose files all exist and parse into statements on which no check of
  the loop throws, the call of the resolver included, \<open>findAllImports\<close> with default
  options succeeds, and the ledger it returns holds exactly the files reachable from the
  root, each once. In particular, for the root \<open>a\<close> that refers to \<open>b\<close> and \<open>c\<close>, where
  \<open>b\<close> refers to \<open>c\<close>: success with the ledger \<open>a, b, c\<close>; and with a callback that
  records its calls, the callback has run on \<open>a\<close>, \<open>b\<close>, \<open>c\<close> in this order, so once
  on \<open>c\<close>.
\<close>

theorem acyclic_closure:
  fixes rank :: "string \<Rightarrow> nat"
  shows
    "(root \<in> F \<and>
      (\<forall>p \<in> F. healthy e (processCwd e) p \<and>
         (\<forall>q \<in> set (importsOf e (processCwd e) p). q \<in> F \<and> rank q < rank p)) \<and>
      rank root \<le> 100 \<longrightarrow>
        (\<exists>L. findAllImports e (JString root) noOptions =
                (Return (SuccessTrue (ledgerOf L)), ledgerOf L) \<and>
              distinct L \<and> set L = reachable e (processCwd e) root \<and>
              (\<forall>p \<in> reachable e (processCwd e) root. count_list L p = 1))) \<and>
     findAllImports diamondProject (JString ''/a'') noOptions =
       (Return (SuccessTrue (ledgerOf [''/a'', ''/b'', ''/c''])), ledgerOf [''/a'', ''/b'', ''/c'']) \<and>
     findAllImportsWithCallbackSync diamondProject (JString ''/a'')
       (CallbackConfig (Some recordingCallback)) noOptions [] =
       (Return (SuccessTrue (ledgerOf [''/a'', ''/b'', ''/c''], [''/a'', ''/b'', ''/c''])), ledgerOf [''/a'', ''/b'', ''/c''], [''/a'', ''/b'', ''/c''])"
proof (intro conjI impI)
  assume a: "root \<in> F \<and>
      (\<forall>p \<in> F. healthy e (processCwd e) p \<and>
         (\<forall>q \<in> set (importsOf e (processCwd e) p). q \<in> F \<and> rank q < rank p)) \<and>
      rank root \<le> 100"
  from a have root: "root \<in> F" by (rule conjunct1)
  from a have files: "\<forall>p \<in> F. healthy e (processCwd e) p \<and>
      (\<forall>q \<in> set (importsOf e (processCwd e) p). q \<in> F \<and> rank q < rank p)"
    by (rule conjunct1[OF conjunct2])
  from a have bound: "rank root \<le> 100" by (rule conjunct2[OF conjunct2])
  have "\<exists>L. findAllImports e (JString root) noOptions =
            (Return (SuccessTrue (ledgerOf L)), ledgerOf L) \<and>
          distinct L \<and> set L = reachable e (processCwd e) root"
  proof (rule closure_when_bounded[where F = F and \<phi> = "\<lambda>p V. rank p" and d = 0 and m = 100])
    show "healthy e (processCwd e) p \<and> set (importsOf e (processCwd e) p) \<subseteq> F" if "p \<in> F" for p
      using files that by blast
    show "rank c < rank p" if "p \<in> F" "c \<in> set (importsOf e (processCwd e) p)" for p c
      using files that by blast
    show "defaultOptions e noOptions = typedOptions (processCwd e) [] 0 100"
      by (simp add: defaultOptions_def noOptions_def typedOptions_def ledgerOf_def)
    show "0 + int (rank root) \<le> 100" using bound by simp
    show "root \<in> F" by (rule root)
  qed simp
  then obtain L where L: "findAllImports e (JString root) noOptions =
      (Return (SuccessTrue (ledgerOf L)), ledgerOf L)" "distinct L"
    "set L = reachable e (processCwd e) root"
    by blast
  from L(2,3) have "\<forall>p \<in> reachable e (processCwd e) root. count_list L p = 1"
    by (simp add: count_list_distinct)
  with L show "\<exists>L. findAllImports e (JString root) noOptions =
                (Return (SuccessTrue (ledgerOf L)), ledgerOf L) \<and>
              distinct L \<and> set L = reachable e (processCwd e) root \<and>
              (\<forall>p \<in> reachable e (processCwd e) root. count_list L p = 1)"
    by blast
next
  show "findAllImports diamondProject (JString ''/a'') noOptions =
       (Return (SuccessTrue (ledgerOf [''/a'', ''/b'', ''/c''])), ledgerOf [''/a'', ''/b'', ''/c''])"
    by code_simp
next
  show "findAllImportsWithCallbackSync diamondProject (JString ''/a'')
       (CallbackConfig (Some recordingCallback)) noOptions [] =
       (Return (SuccessTrue (ledgerOf [''/a'', ''/b'', ''/c''], [''/a'', ''/b'', ''/c''])), ledgerOf [''/a'', ''/b'', ''/c''], [''/a'', ''/b'', ''/c''])"
    by code_simp
qed

text \<open>
  The diamond satisfies the hypotheses, with the rank \<open>2, 1, 0\<close>: the files reachable
  from \<open>a\<close> are \<open>a\<close>, \<open>b\<close>, \<open>c\<close>, and each is in the ledger once.
\<close>

theorem acyclic_closure_witness:
  "reachable diamondProject ''/'' ''/a'' = {''/a'', ''/b'', ''/c''} \<and>
   count_list [''/a'', ''/b'', ''/c''] ''/a'' = 1 \<and> count_list [''/a'', ''/b'', ''/c''] ''/b'' = 1 \<and> count_list [''/a'', ''/b'', ''/c''] ''/c'' = 1"
proof -
  let ?e = diamondProject
  have wd: "processCwd ?e = ''/''" by (simp add: diamondProject_def projectEnv_def)
  have ia: "importsOf ?e ''/'' ''/a'' = [''/b'', ''/c'']" by code_simp
  have ib: "importsOf ?e ''/'' ''/b'' = [''/c'']" by code_simp
  have ic: "importsOf ?e ''/'' ''/c'' = []" by code_simp
  have h: "healthy ?e ''/'' ''/a''" "healthy ?e ''/'' ''/b''" "healthy ?e ''/'' ''/c''"
    by code_simp+
  have hyp: "''/a'' \<in> {''/a'', ''/b'', ''/c''} \<and>
      (\<forall>p \<in> {''/a'', ''/b'', ''/c''}. healthy ?e (processCwd ?e) p \<and>
        (\<forall>q \<in> set (importsOf ?e (processCwd ?e) p).
           q \<in> {''/a'', ''/b'', ''/c''} \<and> diamondRank q < diamondRank p)) \<and>
      diamondRank ''/a'' \<le> 100"
    using ia ib ic h by (simp add: wd diamondRank_def)
  note ac = acyclic_closure[where root = "''/a''" and F = "{''/a'', ''/b'', ''/c''}"
      and e = ?e and rank = diamondRank]
  from mp[OF conjunct1[OF ac] hyp]
  obtain L where L: "findAllImports ?e (JString ''/a'') noOptions =
      (Return (SuccessTrue (ledgerOf L)), ledgerOf L)" "set L = reachable ?e (processCwd ?e) ''/a''"
    "\<forall>p \<in> reachable ?e (processCwd ?e) ''/a''. count_list L p = 1"
    by blast
  have run: "findAllImports ?e (JString ''/a'') noOptions =
      (Return (SuccessTrue (ledgerOf [''/a'', ''/b'', ''/c''])), ledgerOf [''/a'', ''/b'', ''/c''])"
    by (rule conjunct1[OF conjunct2[OF ac]])
  from L(1) run have l: "L = [''/a'', ''/b'', ''/c'']" by simp
  with L(2) wd have reach: "reachable ?e ''/'' ''/a'' = {''/a'', ''/b'', ''/c''}" by auto
  from L(3) reach l wd
  have "count_list [''/a'', ''/b'', ''/c''] ''/a'' = 1 \<and> count_list [''/a'', ''/b'', ''/c''] ''/b'' = 1 \<and> count_list [''/a'', ''/b'', ''/c''] ''/c'' = 1"
    by simp
  with reach show ?thesis by simp
qed

text \<open>
  C1 as stated fails: a linear chain of 102 files is acyclic and every file exists, and
  with default options the call on its first file returns the depth failure.
\<close>

theorem long_chain_counterexample:
  "linearChain (chainProject 102 False) ''/'' (map chainFile [0..<102]) \<and>
   findAllImports (chainProject 102 False) (JString ''/'') noOptions =
     (Return (depthExceeded 100 (chainFile 101)), ledgerOf (map chainFile [0..<101]))"
proof -
  have o: "defaultOptions (chainProject (Suc (Suc 100)) False) noOptions =
      typedOptions ''/'' [] 0 (int 100)"
    by (simp add: defaultOptions_def noOptions_def typedOptions_def ledgerOf_def chainProject_def)
  from chain_project_fails[OF o] chain_project_linear[of 102 "''/''"]
  show ?thesis by simp
qed

text \<open>
  C2 (amended). Every traversal terminates (the functions above are total). For every
  reference graph, cyclic or not, and a traversal that starts from an empty ledger:
  whenever it succeeds, the returned ledger holds exactly the files reachable from the
  root, and every such file, so every file of a cycle, appears in it exactly once; and
  it does succeed when the files all exist and parse into statements on which no check
  of the loop throws, the call of the resolver included, and number at most
  \<open>maxDepth - depth\<close>. A call validates its file first, the depth included; then
  a file that is in the ledger is answered with the ledger as it is, without a scan, and
  a file that is not is appended to the ledger before its statements are scanned.
\<close>

theorem cyclic_closure:
  assumes "defaultOptions e opts = typedOptions wd [] d m"
  shows
    "(findAllImports e (JString root) opts = (Return (SuccessTrue r), vs) \<longrightarrow>
        (\<exists>L. vs = ledgerOf L \<and> r = ledgerOf L \<and> distinct L \<and> set L = reachable e wd root \<and>
             (\<forall>p \<in> reachable e wd root. count_list L p = 1))) \<and>
     (finite F \<and> root \<in> F \<and> (\<forall>p \<in> F. healthy e wd p \<and> set (importsOf e wd p) \<subseteq> F) \<and>
      d + int (card F) \<le> m \<longrightarrow>
        (\<exists>L. findAllImports e (JString root) opts =
               (Return (SuccessTrue (ledgerOf L)), ledgerOf L))) \<and>
     (defaultOptions e callOpts = typedOptions wd ps callDepth m \<longrightarrow>
        findAllImports e (JString fp) callOpts =
          (if callDepth > m then (Return (depthExceeded m fp), ledgerOf ps)
           else if \<not> existsSync e fp then (Return (fileNotFound fp), ledgerOf ps)
           else if \<not> hasAst e fp then (Return (parseFailure fp), ledgerOf ps)
           else if fp \<in> set ps then (Return (SuccessTrue (ledgerOf ps)), ledgerOf ps)
           else scanBody e (body (the (ast (the (getSourceCodeFromFilePath e fp)))))
                  ImportDeclarationCheck
                  \<lparr>currentDir = dirname e fp, workingDir = wd, currentDepth = callDepth,
                   depthLimit = m\<rparr>
                  (ledgerOf (ps @ [fp]))))"
proof (intro conjI impI)
  assume run: "findAllImports e (JString root) opts = (Return (SuccessTrue r), vs)"
  have o: "visitedSet (defaultOptions e opts) = ledgerOf []" "cwd (defaultOptions e opts) = JString wd"
    using assms by (simp_all add: typedOptions_def)
  from ledger_steps(1)[OF o(1), of "JString root"] run
  obtain L where L: "vs = ledgerOf L" "distinct L" "r = ledgerOf L"
    by (auto simp: ledgerStep_def)
  from explored_on_success(1)[OF refl o(2) o(1) run[unfolded L(1)]]
  have reach: "set L = reachable e wd root" by (rule explored_closed)
  have "\<forall>p \<in> reachable e wd root. count_list L p = 1"
    using L(2) reach by (simp add: count_list_distinct)
  with L reach
  show "\<exists>L. vs = ledgerOf L \<and> r = ledgerOf L \<and> distinct L \<and> set L = reachable e wd root \<and>
             (\<forall>p \<in> reachable e wd root. count_list L p = 1)"
    by blast
next
  assume b: "finite F \<and> root \<in> F \<and> (\<forall>p \<in> F. healthy e wd p \<and> set (importsOf e wd p) \<subseteq> F) \<and>
      d + int (card F) \<le> m"
  have "\<exists>L. findAllImports e (JString root) opts = (Return (SuccessTrue (ledgerOf L)), ledgerOf L) \<and>
     distinct L \<and> set L = reachable e wd root"
  proof (rule closure_when_bounded[where F = F and \<phi> = "\<lambda>p V. card (F - V)" and d = d and m = m])
    show "healthy e wd p \<and> set (importsOf e wd p) \<subseteq> F" if "p \<in> F" for p
      using b that by blast
    show "card (F - V') \<le> card (F - V)" if "V \<subseteq> V'" for V V' :: "string set"
      using that b by (intro card_mono) auto
    show "card (F - insert p V) < card (F - V)" if "p \<in> F" "p \<notin> V" for p V
      using that b by (intro psubset_card_mono) auto
    show "d + int (card (F - {})) \<le> m" using b by simp
  qed (use b assms in simp_all)
  then show "\<exists>L. findAllImports e (JString root) opts =
      (Return (SuccessTrue (ledgerOf L)), ledgerOf L)"
    by blast
next
  assume "defaultOptions e callOpts = typedOptions wd ps callDepth m"
  then show "findAllImports e (JString fp) callOpts =
      (if callDepth > m then (Return (depthExceeded m fp), ledgerOf ps)
       else if \<not> existsSync e fp then (Return (fileNotFound fp), ledgerOf ps)
       else if \<not> hasAst e fp then (Return (parseFailure fp), ledgerOf ps)
       else if fp \<in> set ps then (Return (SuccessTrue (ledgerOf ps)), ledgerOf ps)
       else scanBody e (body (the (ast (the (getSourceCodeFromFilePath e fp)))))
              ImportDeclarationCheck
              \<lparr>currentDir = dirname e fp, workingDir = wd, currentDepth = callDepth,
               depthLimit = m\<rparr>
              (ledgerOf (ps @ [fp])))"
    by (rule findAllImports_typed)
qed

text \<open>Two files that import each other: success, each file once.\<close>

theorem cyclic_closure_witness:
  "findAllImports cycleProject (JString ''/a'') noOptions =
     (Return (SuccessTrue (ledgerOf [''/a'', ''/b''])), ledgerOf [''/a'', ''/b'']) \<and>
   reachable cycleProject ''/'' ''/a'' = {''/a'', ''/b''} \<and>
   count_list [''/a'', ''/b''] ''/a'' = 1 \<and> count_list [''/a'', ''/b''] ''/b'' = 1"
proof -
  let ?e = cycleProject
  have ia: "importsOf ?e ''/'' ''/a'' = [''/b'']" by code_simp
  have ib: "importsOf ?e ''/'' ''/b'' = [''/a'']" by code_simp
  have h: "healthy ?e ''/'' ''/a''" "healthy ?e ''/'' ''/b''" by code_simp+
  have hyp: "finite {''/a'', ''/b''} \<and> ''/a'' \<in> {''/a'', ''/b''} \<and>
      (\<forall>p \<in> {''/a'', ''/b''}. healthy ?e ''/'' p \<and> set (importsOf ?e ''/'' p) \<subseteq> {''/a'', ''/b''}) \<and>
      0 + int (card {''/a'', ''/b''}) \<le> 100"
    using ia ib h by simp
  have o: "defaultOptions ?e noOptions = typedOptions ''/'' [] 0 100"
    by (simp add: defaultOptions_def noOptions_def typedOptions_def ledgerOf_def
        cycleProject_def projectEnv_def)
  note cc = cyclic_closure[OF o, where root = "''/a''" and F = "{''/a'', ''/b''}"]
  from cc hyp obtain L0 where succ: "findAllImports ?e (JString ''/a'') noOptions =
      (Return (SuccessTrue (ledgerOf L0)), ledgerOf L0)"
    by blast
  have run: "findAllImports ?e (JString ''/a'') noOptions =
     (Return (SuccessTrue (ledgerOf [''/a'', ''/b''])), ledgerOf [''/a'', ''/b''])"
    by code_simp
  from cyclic_closure[OF o, where root = "''/a''" and r = "ledgerOf [''/a'', ''/b'']"
      and vs = "ledgerOf [''/a'', ''/b'']" and F = "{}"] run
  obtain L where L: "ledgerOf [''/a'', ''/b''] = ledgerOf L" "set L = reachable ?e ''/'' ''/a''"
    "\<forall>p \<in> reachable ?e ''/'' ''/a''. count_list L p = 1"
    by blast
  from L(1) have l: "L = [''/a'', ''/b'']" by simp
  with L(2) have reach: "reachable ?e ''/'' ''/a'' = {''/a'', ''/b''}" by auto
  from L(3) reach l have "count_list [''/a'', ''/b''] ''/a'' = 1 \<and> count_list [''/a'', ''/b''] ''/b'' = 1"
    by simp
  with run reach show ?thesis by simp
qed

text \<open>
  C2 as stated fails: in a ring of 102 files, with default options, the call on the
  first file returns the depth failure, and the last file of the ring is not in the
  ledger.
\<close>

theorem long_cycle_counterexample:
  "chainLinks (chainProject 102 True) ''/'' (map chainFile [0..<102]) \<and>
   importsOf (chainProject 102 True) ''/'' (chainFile 101) = [chainFile 0] \<and>
   findAllImports (chainProject 102 True) (JString (chainFile 0)) noOptions =
     (Return (depthExceeded 100 (chainFile 101)), ledgerOf (map chainFile [0..<101])) \<and>
   chainFile 101 \<notin> set (map chainFile [0..<101])"
proof -
  have o: "defaultOptions (chainProject (Suc (Suc 100)) True) noOptions =
      typedOptions ''/'' [] 0 (int 100)"
    by (simp add: defaultOptions_def noOptions_def typedOptions_def ledgerOf_def chainProject_def)
  have z: "chainFile 0 = ''/''" by (simp add: chainFile_def)
  have i: "importsOf (chainProject 102 True) ''/'' (chainFile 101) = [chainFile 0]"
    using chain_project_file(2)[of 101 102 True "''/''"] by simp
  have n: "chainFile 101 \<notin> set (map chainFile [0..<101])"
    by (auto simp: chainFile_inj)
  from chain_project_fails[OF o] chain_project_links[of 102 True "''/''"] i n z
  show ?thesis by simp
qed

end
